theory Spec2Isabelle
  imports Complex_Main "HOL-Library.Log_Nat"
begin

section \<open>Python values and the environment\<close>

text \<open>
  The pipeline passes market data around as Python dictionaries from field names to
  values of any type. A value is \<open>None\<close>, a number, one of the three floats that are
  not numbers (\<open>nan\<close>, \<open>inf\<close>, \<open>-inf\<close>) or a string. A number is the rational that
  is its exact value, whether it is a Python \<open>int\<close> or a finite \<open>float\<close>.
  A dictionary is an association list whose first binding of a key counts.
\<close>

datatype pyval = PNone | PNum rat | PNaN | PPosInf | PNegInf | PStr string

text \<open>The value of a Python \<open>float\<close>: a double, \<open>nan\<close> or an infinity.\<close>

datatype pyfloat = Finite rat | NaN | PosInf | NegInf

subsection \<open>Binary floating point\<close>

text \<open>
  A Python \<open>float\<close> is an IEEE 754 double. \<open>binary64 x\<close> is \<open>x\<close> rounded to 53
  significant bits, ties to even: the double nearest to \<open>x\<close>, which is what \<open>float\<close>
  returns for an \<open>int\<close>, for a \<open>Decimal\<close> and for a \<open>float\<close>. \<open>exponent x\<close> is
  the integer part of the binary logarithm of \<open>\<bar>x\<bar>\<close>, from the bit length of the integer
  part of \<open>\<bar>x\<bar>\<close> or of its reciprocal. An \<open>int\<close> that rounds to \<open>2 ^ 1024\<close> or beyond
  has no double, and \<open>float\<close> raises \<open>OverflowError\<close> on it.
\<close>

definition round_half_even :: "rat \<Rightarrow> int" where
  "round_half_even x =
     (let f = \<lfloor>x\<rfloor>; r = x - of_int f
      in if r < 1 / 2 then f else if 1 / 2 < r then f + 1 else if even f then f else f + 1)"

definition exponent :: "rat \<Rightarrow> int" where
  "exponent x =
     (if 1 \<le> \<bar>x\<bar> then int (floorlog 2 (nat \<lfloor>\<bar>x\<bar>\<rfloor>)) - 1
      else - int (floorlog 2 (nat (\<lceil>1 / \<bar>x\<bar>\<rceil> - 1))))"

definition binary64 :: "rat \<Rightarrow> rat" where
  "binary64 x = (let k = exponent x - 52 in of_int (round_half_even (x / 2 powi k)) * 2 powi k)"

definition overflows :: "rat \<Rightarrow> bool" where
  "overflows x = (2 ^ 1024 - 2 ^ 970 \<le> \<bar>x\<bar>)"

subsection \<open>Dictionaries, exceptions and the environment\<close>

type_synonym pydict = "(string \<times> pyval) list"

datatype error = TypeError | ValueError | OverflowError | AttributeError | RuntimeError | DbError

text \<open>
  An operation that may raise returns \<open>Inl\<close> of the exception; \<open>bind_err\<close> runs the
  next statement when the previous one did not raise.
\<close>

definition bind_err :: "error + 'a \<Rightarrow> ('a \<Rightarrow> error + 'b) \<Rightarrow> error + 'b" where
  "bind_err m f = (case m of Inl x \<Rightarrow> Inl x | Inr v \<Rightarrow> f v)"

text \<open>Truth value of a Python object, \<open>a or b\<close>, and \<open>d.get(k, default)\<close>.\<close>

fun truthy :: "pyval \<Rightarrow> bool" where
  "truthy PNone = False"
| "truthy (PNum r) = (r \<noteq> 0)"
| "truthy PNaN = True"
| "truthy PPosInf = True"
| "truthy PNegInf = True"
| "truthy (PStr s) = (s \<noteq> [])"

definition py_or :: "pyval \<Rightarrow> pyval \<Rightarrow> pyval" where
  "py_or a b = (if truthy a then a else b)"

definition dict_get :: "pydict \<Rightarrow> string \<Rightarrow> pyval \<Rightarrow> pyval" where
  "dict_get d k dflt = (case map_of d k of None \<Rightarrow> dflt | Some v \<Rightarrow> v)"

text \<open>
  What a call reads from outside the program: the clock, the date, whether the calling
  thread has a running asyncio event loop, whether the DuckDB connection executes a
  statement on the \<open>prices\<close> table (\<open>db_up\<close>) and on the tick log (\<open>ticks_up\<close>),
  whether \<open>send_text\<close> to a WebSocket succeeds, and the library conversions the code
  relies on: Python's \<open>float(str)\<close> and \<open>int(str)\<close> (\<open>None\<close> where they raise
  \<open>ValueError\<close>), \<open>str\<close> of a number, and DuckDB's cast of a bound parameter to a
  \<open>DECIMAL(12,2)\<close> column (\<open>None\<close> where the cast is refused).
\<close>

record env =
  today :: nat
  now :: rat
  loop_running :: bool
  db_up :: bool
  ticks_up :: bool
  send_ok :: "nat \<Rightarrow> bool"
  str_float :: "string \<Rightarrow> pyfloat option"
  str_int :: "string \<Rightarrow> int option"
  num_repr :: "rat \<Rightarrow> string"
  db_decimal :: "pyval \<Rightarrow> rat option"

text \<open>
  \<open>float(v)\<close> and \<open>int(v)\<close>. \<open>float\<close> of a number is the double nearest to it.
  \<open>int\<close> of a number truncates towards zero; of \<open>nan\<close> it raises \<open>ValueError\<close>, of
  an infinity \<open>OverflowError\<close>.
\<close>

fun py_float :: "env \<Rightarrow> pyval \<Rightarrow> error + pyfloat" where
  "py_float e PNone = Inl TypeError"
| "py_float e (PNum r) = (if overflows r then Inl OverflowError else Inr (Finite (binary64 r)))"
| "py_float e PNaN = Inr NaN"
| "py_float e PPosInf = Inr PosInf"
| "py_float e PNegInf = Inr NegInf"
| "py_float e (PStr s) = (case str_float e s of None \<Rightarrow> Inl ValueError | Some f \<Rightarrow> Inr f)"

definition trunc :: "rat \<Rightarrow> int" where
  "trunc r = (if 0 \<le> r then \<lfloor>r\<rfloor> else \<lceil>r\<rceil>)"

fun py_int :: "env \<Rightarrow> pyval \<Rightarrow> error + int" where
  "py_int e PNone = Inl TypeError"
| "py_int e (PNum r) = Inr (trunc r)"
| "py_int e PNaN = Inl ValueError"
| "py_int e PPosInf = Inl OverflowError"
| "py_int e PNegInf = Inl OverflowError"
| "py_int e (PStr s) = (case str_int e s of None \<Rightarrow> Inl ValueError | Some n \<Rightarrow> Inr n)"

fun py_str :: "env \<Rightarrow> pyval \<Rightarrow> string" where
  "py_str e PNone = ''None''"
| "py_str e (PNum r) = num_repr e r"
| "py_str e PNaN = ''nan''"
| "py_str e PPosInf = ''inf''"
| "py_str e PNegInf = ''-inf''"
| "py_str e (PStr s) = s"

text \<open>
  A Python float as a value, and the comparisons of floats: every comparison with \<open>nan\<close>
  is false. \<open>max(a, b)\<close> is \<open>a\<close> unless \<open>b > a\<close>, and \<open>min(a, b)\<close> is
  \<open>a\<close> unless \<open>b < a\<close>.
\<close>

fun float_val :: "pyfloat \<Rightarrow> pyval" where
  "float_val (Finite r) = PNum r"
| "float_val NaN = PNaN"
| "float_val PosInf = PPosInf"
| "float_val NegInf = PNegInf"

fun float_less :: "pyfloat \<Rightarrow> pyfloat \<Rightarrow> bool" where
  "float_less NaN b = False"
| "float_less a NaN = False"
| "float_less (Finite a) (Finite b) = (a < b)"
| "float_less (Finite a) PosInf = True"
| "float_less (Finite a) NegInf = False"
| "float_less PosInf b = False"
| "float_less NegInf (Finite b) = True"
| "float_less NegInf PosInf = True"
| "float_less NegInf NegInf = False"

definition py_max :: "pyfloat \<Rightarrow> pyfloat \<Rightarrow> pyfloat" where
  "py_max a b = (if float_less a b then b else a)"

definition py_min :: "pyfloat \<Rightarrow> pyfloat \<Rightarrow> pyfloat" where
  "py_min a b = (if float_less b a then b else a)"

text \<open>
  A parameter bound to a \<open>DECIMAL(12,2)\<close> column: \<open>nan\<close> and the infinities have no
  decimal value, so their cast is refused; every other value is cast as DuckDB casts it.
  A \<open>BIGINT\<close> column holds a signed 64-bit integer; a larger Python int is refused.
\<close>

fun to_decimal :: "env \<Rightarrow> pyval \<Rightarrow> rat option" where
  "to_decimal e PNaN = None"
| "to_decimal e PPosInf = None"
| "to_decimal e PNegInf = None"
| "to_decimal e v = db_decimal e v"

definition db_bigint :: "int \<Rightarrow> int option" where
  "db_bigint n = (if - (2 ^ 63) \<le> n \<and> n < 2 ^ 63 then Some n else None)"

section \<open>The aggregate store (realtime\_prices/database.py)\<close>

text \<open>
  The \<open>prices\<close> table has primary key \<open>(date, symbol, exchange)\<close>, so it is a map
  from keys to rows. The tick log \<open>real_time_ticks\<close> is a list in insertion order, and
  \<open>tick_id_seq\<close> is the next value of its sequence.
\<close>

record price_row =
  p_open :: rat
  p_high :: rat
  p_low :: rat
  p_close :: rat
  p_volume :: int
  p_oi :: int
  p_last_updated :: rat

record tick_row =
  t_id :: nat
  t_timestamp :: rat
  t_symbol :: string
  t_exchange :: string
  t_ltp :: rat
  t_volume :: int
  t_oi :: int
  t_bid :: rat
  t_ask :: rat

type_synonym price_key = "nat \<times> string \<times> string"

record database =
  prices :: "price_key \<Rightarrow> price_row option"
  ticks :: "tick_row list"
  tick_id_seq :: nat

text \<open>
  \<open>_insert_tick\<close>: \<open>nextval\<close> advances the sequence first; the conversions and the
  \<open>INSERT\<close> follow. Every exception is caught inside the method and only logged, so the
  result is the database, with or without the new row.
\<close>

definition insert_tick_row :: "env \<Rightarrow> string \<Rightarrow> string \<Rightarrow> pydict \<Rightarrow> nat \<Rightarrow> error + tick_row" where
  "insert_tick_row e symbol exchange price_data tick_id =
     bind_err (py_float e (dict_get price_data ''ltp'' (PNum 0))) (\<lambda>ltp.
     bind_err (py_int e (dict_get price_data ''volume'' (PNum 0))) (\<lambda>volume.
     bind_err (py_int e (dict_get price_data ''oi'' (PNum 0))) (\<lambda>oi.
     bind_err (py_float e (dict_get price_data ''bid'' (PNum 0))) (\<lambda>bid.
     bind_err (py_float e (dict_get price_data ''ask'' (PNum 0))) (\<lambda>ask.
       (case (to_decimal e (float_val ltp), db_bigint volume, db_bigint oi,
              to_decimal e (float_val bid), to_decimal e (float_val ask)) of
          (Some ltp', Some volume', Some oi', Some bid', Some ask') \<Rightarrow>
            Inr \<lparr>t_id = tick_id, t_timestamp = now e, t_symbol = symbol, t_exchange = exchange,
                 t_ltp = ltp', t_volume = volume', t_oi = oi', t_bid = bid', t_ask = ask'\<rparr>
        | _ \<Rightarrow> Inl DbError))))))"

definition insert_tick :: "env \<Rightarrow> string \<Rightarrow> string \<Rightarrow> pydict \<Rightarrow> database \<Rightarrow> database" where
  "insert_tick e symbol exchange price_data db =
     (if \<not> ticks_up e then db
      else let tick_id = tick_id_seq db; db1 = db\<lparr>tick_id_seq := Suc tick_id\<rparr>
           in case insert_tick_row e symbol exchange price_data tick_id of
                Inl x \<Rightarrow> db1
              | Inr row \<Rightarrow> db1\<lparr>ticks := ticks db1 @ [row]\<rparr>)"

text \<open>
  The \<open>UPDATE\<close> branch of \<open>upsert_price\<close>: the stored high and low come back as
  \<open>Decimal\<close> and are converted with \<open>float\<close>; the new values are computed on floats
  and cast to the columns.
\<close>

definition update_row :: "env \<Rightarrow> price_row \<Rightarrow> pyfloat \<Rightarrow> int \<Rightarrow> int \<Rightarrow> error + price_row" where
  "update_row e existing current_price volume oi =
     (let old_high = Finite (binary64 (p_high existing));
          old_low = Finite (binary64 (p_low existing));
          new_high = py_max old_high current_price;
          new_low = (if float_less (Finite 0) old_low then py_min old_low current_price
                     else current_price);
          new_volume = max (p_volume existing) volume;
          new_oi = (if oi > 0 then oi else p_oi existing)
      in case (to_decimal e (float_val new_high), to_decimal e (float_val new_low),
               to_decimal e (float_val current_price), db_bigint new_volume, db_bigint new_oi) of
           (Some h, Some l, Some c, Some v, Some i) \<Rightarrow>
             Inr (existing\<lparr>p_high := h, p_low := l, p_close := c, p_volume := v, p_oi := i,
                            p_last_updated := now e\<rparr>)
         | _ \<Rightarrow> Inl DbError)"

text \<open>
  The \<open>INSERT\<close> branch: \<open>open\<close>, \<open>high\<close> and \<open>low\<close> are the dictionary's values as
  they are, the tick's price only where the key is absent.
\<close>

definition insert_row :: "env \<Rightarrow> pydict \<Rightarrow> pyfloat \<Rightarrow> int \<Rightarrow> int \<Rightarrow> error + price_row" where
  "insert_row e price_data current_price volume oi =
     (let open_price = dict_get price_data ''open'' (float_val current_price);
          high_price = dict_get price_data ''high'' (float_val current_price);
          low_price = dict_get price_data ''low'' (float_val current_price)
      in case (to_decimal e open_price, to_decimal e high_price, to_decimal e low_price,
               to_decimal e (float_val current_price), db_bigint volume, db_bigint oi) of
           (Some opn, Some h, Some l, Some c, Some v, Some i) \<Rightarrow>
             Inr \<lparr>p_open = opn, p_high = h, p_low = l, p_close = c, p_volume = v, p_oi = i,
                  p_last_updated = now e\<rparr>
         | _ \<Rightarrow> Inl DbError)"

text \<open>
  The body of \<open>upsert_price\<close> inside its \<open>try\<close>: the conversions, the \<open>SELECT\<close>, the
  write to \<open>prices\<close>, then the tick log.
\<close>

definition upsert_body :: "env \<Rightarrow> string \<Rightarrow> string \<Rightarrow> pydict \<Rightarrow> database \<Rightarrow> error + database" where
  "upsert_body e symbol exchange price_data db =
     bind_err (py_float e (dict_get price_data ''ltp'' (PNum 0))) (\<lambda>current_price.
     bind_err (py_int e (dict_get price_data ''volume'' (PNum 0))) (\<lambda>volume.
     bind_err (py_int e (dict_get price_data ''oi'' (PNum 0))) (\<lambda>oi.
     bind_err (if db_up e then Inr (prices db (today e, symbol, exchange)) else Inl DbError)
       (\<lambda>existing.
     bind_err (case existing of
                 Some old \<Rightarrow> update_row e old current_price volume oi
               | None \<Rightarrow> insert_row e price_data current_price volume oi) (\<lambda>row.
       Inr (insert_tick e symbol exchange price_data
              (db\<lparr>prices := (prices db)((today e, symbol, exchange) \<mapsto> row)\<rparr>)))))))"

text \<open>\<open>upsert_price\<close> returns \<open>True\<close>, or \<open>False\<close> when anything in its body raised.\<close>

definition upsert_price :: "env \<Rightarrow> string \<Rightarrow> string \<Rightarrow> pydict \<Rightarrow> database \<Rightarrow> bool \<times> database" where
  "upsert_price e symbol exchange price_data db =
     (case upsert_body e symbol exchange price_data db of
        Inl x \<Rightarrow> (False, db)
      | Inr db' \<Rightarrow> (True, db'))"

subsection \<open>Reading the store\<close>

text \<open>
  DuckDB returns a \<open>DECIMAL(12,2)\<close> column as a Python \<open>Decimal\<close>, and every read
  operation passes each price through \<open>float\<close> before it returns it. A stored price is
  below \<open>10 ^ 10\<close>, so the conversion does not overflow.
\<close>

definition decimal_float :: "rat \<Rightarrow> pyfloat" where
  "decimal_float d = Finite (binary64 d)"

text \<open>
  \<open>get_current_price\<close>: today's row of the key, \<open>None\<close> when there is none or the
  query raised. The last price is the stored close.
\<close>

record quote =
  q_symbol :: string
  q_exchange :: string
  q_open :: pyfloat
  q_high :: pyfloat
  q_low :: pyfloat
  q_close :: pyfloat
  q_ltp :: pyfloat
  q_volume :: int
  q_oi :: int
  q_last_updated :: rat

definition get_current_price :: "env \<Rightarrow> string \<Rightarrow> string \<Rightarrow> database \<Rightarrow> quote option" where
  "get_current_price e symbol exchange db =
     (if \<not> db_up e then None
      else case prices db (today e, symbol, exchange) of
             None \<Rightarrow> None
           | Some result \<Rightarrow>
               Some \<lparr>q_symbol = symbol, q_exchange = exchange,
                     q_open = decimal_float (p_open result),
                     q_high = decimal_float (p_high result),
                     q_low = decimal_float (p_low result),
                     q_close = decimal_float (p_close result),
                     q_ltp = decimal_float (p_close result),
                     q_volume = p_volume result, q_oi = p_oi result,
                     q_last_updated = p_last_updated result\<rparr>)"

text \<open>
  \<open>get_price_history\<close>: the rows of the key, latest date first, at most \<open>days\<close> of
  them; the empty list when the query raised. A row is written under the current date
  only, so the dates looked at are those up to today.
\<close>

record bar =
  b_date :: nat
  b_symbol :: string
  b_exchange :: string
  b_open :: pyfloat
  b_high :: pyfloat
  b_low :: pyfloat
  b_close :: pyfloat
  b_volume :: int
  b_oi :: int
  b_last_updated :: rat

definition history_row :: "string \<Rightarrow> string \<Rightarrow> database \<Rightarrow> nat \<Rightarrow> bar list" where
  "history_row symbol exchange db d =
     (case prices db (d, symbol, exchange) of
        None \<Rightarrow> []
      | Some row \<Rightarrow>
          [\<lparr>b_date = d, b_symbol = symbol, b_exchange = exchange,
            b_open = decimal_float (p_open row), b_high = decimal_float (p_high row),
            b_low = decimal_float (p_low row), b_close = decimal_float (p_close row),
            b_volume = p_volume row, b_oi = p_oi row, b_last_updated = p_last_updated row\<rparr>])"

definition get_price_history :: "env \<Rightarrow> string \<Rightarrow> string \<Rightarrow> nat \<Rightarrow> database \<Rightarrow> bar list" where
  "get_price_history e symbol exchange days db =
     (if \<not> db_up e then []
      else take days (concat (map (history_row symbol exchange db) (rev [0..<Suc (today e)]))))"

text \<open>
  \<open>get_recent_ticks\<close>: the ticks of the key, latest timestamp first (among equal
  timestamps the later insertion first), at most \<open>limit\<close> of them; the empty list when
  the query raised.
\<close>

record tick_result =
  k_timestamp :: rat
  k_symbol :: string
  k_exchange :: string
  k_ltp :: pyfloat
  k_volume :: int
  k_oi :: int
  k_bid :: pyfloat
  k_ask :: pyfloat

definition tick_result_of :: "tick_row \<Rightarrow> tick_result" where
  "tick_result_of row =
     \<lparr>k_timestamp = t_timestamp row, k_symbol = t_symbol row, k_exchange = t_exchange row,
      k_ltp = decimal_float (t_ltp row), k_volume = t_volume row, k_oi = t_oi row,
      k_bid = decimal_float (t_bid row), k_ask = decimal_float (t_ask row)\<rparr>"

definition get_recent_ticks :: "env \<Rightarrow> string \<Rightarrow> string \<Rightarrow> nat \<Rightarrow> database
    \<Rightarrow> tick_result list" where
  "get_recent_ticks e symbol exchange limit db =
     (if \<not> ticks_up e then []
      else take limit (map tick_result_of (rev (sort_key t_timestamp
             (filter (\<lambda>row. t_symbol row = symbol \<and> t_exchange row = exchange) (ticks db))))))"

text \<open>
  \<open>get_market_status\<close> returns counts and the time of the latest update, no price.
\<close>

subsection \<open>Sequences of ticks on one key\<close>










text \<open>
  A price is held exactly when the cast to \<open>DECIMAL(12,2)\<close> returns it unchanged (two
  decimals, at most ten digits before the point) and \<open>float\<close> of the stored decimal is
  the price again (it is a double). A numeric tick has numbers for last price, volume and
  open interest, a last price that is held exactly and does not overflow, and volume and
  open interest that fit a \<open>BIGINT\<close>. A seed tick moreover has numbers, held exactly
  and strictly positive, for the \<open>open\<close>, \<open>high\<close> and \<open>low\<close> it gives.
\<close>

definition stored_exactly :: "env \<Rightarrow> rat \<Rightarrow> bool" where
  "stored_exactly e r = (db_decimal e (PNum r) = Some r \<and> binary64 r = r)"









section \<open>The symbol mapper (database/token\_db.py)\<close>

text \<open>
  The mock token table of the module and its two broker lookups. Each lookup goes through
  the module's cache first and stores what the table query returned.
\<close>

record token_entry =
  token :: string
  brsymbol :: string
  brexchange :: string

definition mock_tokens :: "((string \<times> string) \<times> token_entry) list" where
  "mock_tokens =
     [((''RELIANCE'', ''NSE''), \<lparr>token = ''2885'', brsymbol = ''RELIANCE'', brexchange = ''NSE''\<rparr>),
      ((''TCS'', ''NSE''), \<lparr>token = ''11536'', brsymbol = ''TCS'', brexchange = ''NSE''\<rparr>),
      ((''INFY'', ''NSE''), \<lparr>token = ''9220'', brsymbol = ''INFY'', brexchange = ''NSE''\<rparr>),
      ((''ICICIBANK'', ''NSE''), \<lparr>token = ''4963'', brsymbol = ''ICICIBANK'', brexchange = ''NSE''\<rparr>),
      ((''SBIN'', ''NSE''), \<lparr>token = ''3045'', brsymbol = ''SBIN'', brexchange = ''NSE''\<rparr>),
      ((''NIFTY'', ''NSE_INDEX''), \<lparr>token = ''99926000'', brsymbol = ''NIFTY 50'', brexchange = ''NSE''\<rparr>),
      ((''SENSEX'', ''BSE_INDEX''), \<lparr>token = ''1'', brsymbol = ''SENSEX'', brexchange = ''BSE''\<rparr>)]"

type_synonym cache = "string \<Rightarrow> string option"

definition get_br_symbol_dbquery :: "string \<Rightarrow> string \<Rightarrow> string" where
  "get_br_symbol_dbquery symbol exchange =
     (case map_of mock_tokens (symbol, exchange) of
        Some mock_data \<Rightarrow> brsymbol mock_data
      | None \<Rightarrow> symbol)"

definition get_br_symbol :: "cache \<Rightarrow> string \<Rightarrow> string \<Rightarrow> string \<times> cache" where
  "get_br_symbol c symbol exchange =
     (let cache_key = ''br'' @ symbol @ ''-'' @ exchange
      in case c cache_key of
           Some v \<Rightarrow> (v, c)
         | None \<Rightarrow> (let br = get_br_symbol_dbquery symbol exchange in (br, c(cache_key \<mapsto> br))))"

definition get_brexchange_dbquery :: "string \<Rightarrow> string \<Rightarrow> string" where
  "get_brexchange_dbquery symbol exchange =
     (case map_of mock_tokens (symbol, exchange) of
        Some mock_data \<Rightarrow> brexchange mock_data
      | None \<Rightarrow> exchange)"

definition get_brexchange :: "cache \<Rightarrow> string \<Rightarrow> string \<Rightarrow> string \<times> cache" where
  "get_brexchange c symbol exchange =
     (let cache_key = ''brex-'' @ symbol @ ''-'' @ exchange
      in case c cache_key of
           Some v \<Rightarrow> (v, c)
         | None \<Rightarrow> (let bx = get_brexchange_dbquery symbol exchange in (bx, c(cache_key \<mapsto> bx))))"

text \<open>
  Both functions take two positional parameters, \<open>(symbol, exchange)\<close>. Python checks
  the number of arguments when the call is made and raises \<open>TypeError\<close> before the body
  runs when it does not fit; a call is therefore modelled with its list of arguments.
\<close>

definition call2 :: "(cache \<Rightarrow> string \<Rightarrow> string \<Rightarrow> string \<times> cache) \<Rightarrow> cache \<Rightarrow> string list
    \<Rightarrow> error + (string \<times> cache)" where
  "call2 f c args = (case args of [a, b] \<Rightarrow> Inr (f c a b) | _ \<Rightarrow> Inl TypeError)"

section \<open>The feed ingest controller (realtime\_prices/streamer.py)\<close>

datatype level = DEBUG | INFO | WARNING | ERROR

text \<open>
  An asyncio task created by the feed handler: the pending call
  \<open>_broadcast_update(symbol, exchange, price_data)\<close>.
\<close>

type_synonym task = "string \<times> string \<times> pydict"

text \<open>
  The fields of \<open>AngelPriceStreamer\<close> the pipeline reads or writes, together with the
  tasks it has handed to the event loop, the lines it has logged and the token module's
  cache. A WebSocket is named by a number.
\<close>

record streamer =
  messages_received :: nat
  last_message_time :: "rat option"
  db_updates :: nat
  broadcast_count :: nat
  last_db_update :: "string \<Rightarrow> rat option"
  min_update_interval :: rat
  db :: database
  subscribers :: "nat list"
  running :: bool
  connected :: bool
  reconnect_delay :: nat
  max_reconnect_delay :: nat
  reconnect_attempts :: nat
  max_reconnect_attempts :: nat
  token_cache :: cache
  tasks :: "task list"
  logged :: "(level \<times> string) list"

definition add_log :: "level \<Rightarrow> string \<Rightarrow> streamer \<Rightarrow> streamer" where
  "add_log l msg st = st\<lparr>logged := logged st @ [(l, msg)]\<rparr>"

subsection \<open>Reconnection\<close>

text \<open>
  \<open>stop_streaming\<close>, and \<open>_handle_reconnection\<close>. The latter returns the delay it slept,
  if it slept; \<open>init_ok\<close> says whether \<open>_initialize_websocket\<close> returned (it leaves
  \<open>connected\<close> set) or raised.
\<close>

definition stop_streaming :: "streamer \<Rightarrow> streamer" where
  "stop_streaming st = st\<lparr>running := False, connected := False, subscribers := []\<rparr>"

definition handle_reconnection :: "bool \<Rightarrow> streamer \<Rightarrow> streamer \<times> nat option" where
  "handle_reconnection init_ok st =
     (if reconnect_attempts st \<ge> max_reconnect_attempts st
      then (stop_streaming (add_log ERROR ''Max reconnection attempts reached'' st), None)
      else let st1 = st\<lparr>reconnect_attempts := reconnect_attempts st + 1\<rparr>;
               delay = min (reconnect_delay st1 * 2 ^ reconnect_attempts st1)
                           (max_reconnect_delay st1)
           in if init_ok
              then (st1\<lparr>connected := True, reconnect_attempts := 0\<rparr>, Some delay)
              else (add_log ERROR ''Reconnection failed'' st1, Some delay))"

text \<open>
  The reconnect attempts the streaming loop makes while the connection stays lost, one
  per outcome of \<open>_initialize_websocket\<close>, and the delays slept.
\<close>

fun reconnect_run :: "bool list \<Rightarrow> streamer \<Rightarrow> streamer \<times> nat option list" where
  "reconnect_run [] st = (st, [])"
| "reconnect_run (ok # oks) st =
     (let (st1, d) = handle_reconnection ok st;
          (st2, ds) = reconnect_run oks st1
      in (st2, d # ds))"

subsection \<open>Handling one feed event\<close>

text \<open>\<open>str.split(sep)\<close> and \<open>str.isdigit()\<close> (on ASCII text).\<close>

fun split_on :: "char \<Rightarrow> string \<Rightarrow> string list" where
  "split_on c [] = [[]]"
| "split_on c (x # xs) =
     (if x = c then [] # split_on c xs
      else (case split_on c xs of [] \<Rightarrow> [[x]] | p # ps \<Rightarrow> (x # p) # ps))"

definition isdigit :: "string \<Rightarrow> bool" where
  "isdigit s = (s \<noteq> [] \<and> list_all (\<lambda>c. c \<in> set ''0123456789'') s)"

text \<open>Symbol and exchange from the topic: \<open>None\<close> for both unless the topic has a \<open>_\<close>.\<close>

definition parse_topic :: "string \<Rightarrow> pyval \<times> pyval" where
  "parse_topic topic =
     (if topic \<noteq> [] \<and> CHR ''_'' \<in> set topic
      then (case split_on CHR ''_'' topic of
              p0 # p1 # ps \<Rightarrow> (PStr p1, PStr p0)
            | _ \<Rightarrow> (PNone, PNone))
      else (PNone, PNone))"

text \<open>
  The mapping of a numeric token, inside its own \<open>try\<close>: the handler calls
  \<open>get_br_symbol(symbol)\<close> and \<open>get_brexchange(symbol)\<close>, each with one argument.
  Whatever is raised is logged at debug level and the handler goes on with the values
  assigned so far.
\<close>

definition map_token :: "streamer \<Rightarrow> string \<Rightarrow> pyval \<Rightarrow> (pyval \<times> pyval) \<times> streamer" where
  "map_token st s exchange =
     (case call2 get_br_symbol (token_cache st) [s] of
        Inl x \<Rightarrow> ((PStr s, exchange), add_log DEBUG ''Token mapping failed'' st)
      | Inr (s', c') \<Rightarrow>
          (if truthy exchange then ((PStr s', exchange), st\<lparr>token_cache := c'\<rparr>)
           else (case call2 get_brexchange c' [s'] of
                   Inl x \<Rightarrow> ((PStr s', exchange),
                             add_log DEBUG ''Token mapping failed'' (st\<lparr>token_cache := c'\<rparr>))
                 | Inr (x', c'') \<Rightarrow> ((PStr s', PStr x'), st\<lparr>token_cache := c''\<rparr>))))"

text \<open>
  Resolution of symbol and exchange: the topic first, then the fields of the message.
  \<open>symbol.isdigit()\<close> raises \<open>AttributeError\<close> when the field is a number.
\<close>

definition data_get :: "pydict \<Rightarrow> string \<Rightarrow> pyval" where
  "data_get d k = dict_get d k PNone"

definition data_truthy :: "pydict option \<Rightarrow> bool" where
  "data_truthy data = (case data of None \<Rightarrow> False | Some d \<Rightarrow> d \<noteq> [])"

definition resolve :: "streamer \<Rightarrow> string \<Rightarrow> pydict option
    \<Rightarrow> (error + pyval \<times> pyval) \<times> streamer" where
  "resolve st topic data =
     (let (symbol, exchange) = parse_topic topic
      in if \<not> truthy symbol \<and> data_truthy data
         then (case data of
                 None \<Rightarrow> (Inr (symbol, exchange), st)
               | Some d \<Rightarrow>
                   (let symbol' = py_or (data_get d ''symbol'') (data_get d ''tk'');
                        exchange' = py_or (data_get d ''exchange'') (data_get d ''e'')
                    in if truthy symbol'
                       then (case symbol' of
                               PStr s \<Rightarrow>
                                 (if isdigit s
                                  then (let (r, st') = map_token st s exchange'
                                        in (Inr r, st'))
                                  else (Inr (symbol', exchange'), st))
                             | _ \<Rightarrow> (Inl AttributeError, st))
                       else (Inr (symbol', exchange'), st)))
         else (Inr (symbol, exchange), st))"

text \<open>
  The canonical \<open>price_data\<close> dictionary: every key is set, a missing or falsy field
  becoming \<open>0\<close>.
\<close>

definition epoch_ms :: "env \<Rightarrow> pyval" where
  "epoch_ms e = PNum (of_int (trunc (now e * 1000)))"

definition build_price_data :: "env \<Rightarrow> pydict \<Rightarrow> pydict" where
  "build_price_data e d =
     [(''ltp'', py_or (py_or (data_get d ''lp'') (data_get d ''ltp'')) (PNum 0)),
      (''open'', py_or (py_or (data_get d ''o'') (data_get d ''open'')) (PNum 0)),
      (''high'', py_or (py_or (data_get d ''h'') (data_get d ''high'')) (PNum 0)),
      (''low'', py_or (py_or (data_get d ''l'') (data_get d ''low'')) (PNum 0)),
      (''close'', py_or (py_or (py_or (py_or (data_get d ''c'') (data_get d ''close''))
                                 (data_get d ''lp'')) (data_get d ''ltp'')) (PNum 0)),
      (''volume'', py_or (py_or (data_get d ''v'') (data_get d ''volume'')) (PNum 0)),
      (''oi'', py_or (data_get d ''oi'') (PNum 0)),
      (''bid'', py_or (py_or (data_get d ''bp1'') (data_get d ''bid'')) (PNum 0)),
      (''ask'', py_or (py_or (data_get d ''sp1'') (data_get d ''ask'')) (PNum 0)),
      (''timestamp'', py_or (py_or (data_get d ''timestamp'') (data_get d ''ft'')) (epoch_ms e))]"

text \<open>
  \<open>not ltp or ltp <= 0\<close>: \<open>Inr True\<close> when the tick is to be dropped. Comparing a
  string with \<open>0\<close> raises \<open>TypeError\<close>. \<open>nan\<close> is truthy and \<open>nan <= 0\<close> is false,
  so a \<open>nan\<close> passes the check, as \<open>inf\<close> does.
\<close>

fun invalid_ltp :: "pyval \<Rightarrow> error + bool" where
  "invalid_ltp PNone = Inr True"
| "invalid_ltp (PNum r) = Inr (r \<le> 0)"
| "invalid_ltp PNaN = Inr False"
| "invalid_ltp PPosInf = Inr False"
| "invalid_ltp PNegInf = Inr True"
| "invalid_ltp (PStr s) = (if s = [] then Inr True else Inl TypeError)"

text \<open>
  The rate-limited store update. \<open>upsert_price\<close> catches its own exceptions, so the
  handler's inner \<open>except\<close> has nothing to catch.
\<close>

definition store_update :: "env \<Rightarrow> string \<Rightarrow> string \<Rightarrow> pydict \<Rightarrow> streamer \<Rightarrow> streamer" where
  "store_update e symbol exchange price_data st =
     (let symbol_key = symbol @ ''.'' @ exchange;
          current_time = now e
      in if (case last_db_update st symbol_key of
               None \<Rightarrow> True
             | Some t \<Rightarrow> current_time - t \<ge> min_update_interval st)
         then (case upsert_price e symbol exchange price_data (db st) of
                 (True, db') \<Rightarrow>
                   add_log INFO ''Real-time update''
                     (st\<lparr>db := db', db_updates := db_updates st + 1,
                         last_db_update := (last_db_update st)(symbol_key \<mapsto> current_time)\<rparr>)
               | (False, db') \<Rightarrow>
                   add_log WARNING ''Failed to update database'' (st\<lparr>db := db'\<rparr>))
         else st)"

text \<open>
  \<open>asyncio.create_task\<close> raises \<open>RuntimeError\<close> when the calling thread has no running
  event loop; otherwise the task is queued.
\<close>

definition create_task :: "env \<Rightarrow> task \<Rightarrow> streamer \<Rightarrow> streamer \<times> error option" where
  "create_task e t st =
     (if loop_running e then (st\<lparr>tasks := tasks st @ [t]\<rparr>, None) else (st, Some RuntimeError))"

text \<open>
  The first half of the body of \<open>_handle_market_data\<close> (the statistics, the resolution
  of symbol and exchange, the canonical dictionary and the check of the last price): the
  state it leaves, and either the exception it raised or the validated tick, \<open>None\<close> when
  the event was dropped by a \<open>return\<close>.
\<close>

definition validate_event :: "env \<Rightarrow> streamer \<Rightarrow> string \<Rightarrow> pydict option
    \<Rightarrow> streamer \<times> (error + task option)" where
  "validate_event e st topic data =
     (let st0 = st\<lparr>messages_received := messages_received st + 1,
                    last_message_time := Some (now e)\<rparr>
      in case resolve st0 topic data of
           (Inl x, st1) \<Rightarrow> (st1, Inl x)
         | (Inr (symbol, exchange), st1) \<Rightarrow>
             (if \<not> truthy symbol \<or> \<not> truthy exchange
              then (add_log WARNING ''Unable to extract symbol/exchange'' st1, Inr None)
              else (case data of
                      None \<Rightarrow> (st1, Inl AttributeError)
                    | Some d \<Rightarrow>
                        (let price_data = build_price_data e d
                         in case invalid_ltp (dict_get price_data ''ltp'' PNone) of
                              Inl x \<Rightarrow> (st1, Inl x)
                            | Inr True \<Rightarrow> (add_log DEBUG ''Invalid LTP'' st1, Inr None)
                            | Inr False \<Rightarrow>
                                (st1, Inr (Some (py_str e symbol, py_str e exchange,
                                                 price_data)))))))"

text \<open>The tick that the first half validated, if it validated one.\<close>

definition validated_tick :: "env \<Rightarrow> streamer \<Rightarrow> string \<Rightarrow> pydict option \<Rightarrow> task option" where
  "validated_tick e st topic data =
     (case snd (validate_event e st topic data) of
        Inr (Some t) \<Rightarrow> Some t
      | _ \<Rightarrow> None)"

text \<open>
  The whole body inside the \<open>try\<close>: a validated tick goes to the rate-limited store
  update and then to \<open>create_task\<close>. The result is the state left and the exception
  raised, if any; what was written before an exception stays written.
\<close>

definition handle_body :: "env \<Rightarrow> streamer \<Rightarrow> string \<Rightarrow> pydict option
    \<Rightarrow> streamer \<times> error option" where
  "handle_body e st topic data =
     (case validate_event e st topic data of
        (st1, Inl x) \<Rightarrow> (st1, Some x)
      | (st1, Inr None) \<Rightarrow> (st1, None)
      | (st1, Inr (Some (symbol, exchange, price_data))) \<Rightarrow>
          create_task e (symbol, exchange, price_data)
            (store_update e symbol exchange price_data st1))"

text \<open>
  \<open>_handle_market_data\<close>: the outer \<open>except Exception\<close> logs what the body raised. The
  second component is the exception that reaches the caller.
\<close>

definition handle_market_data :: "env \<Rightarrow> streamer \<Rightarrow> string \<Rightarrow> pydict option
    \<Rightarrow> streamer \<times> error option" where
  "handle_market_data e st topic data =
     (case handle_body e st topic data of
        (st', None) \<Rightarrow> (st', None)
      | (st', Some x) \<Rightarrow> (add_log ERROR ''Error handling market data'' st', None))"

section \<open>Subscription registry and fanout (realtime\_prices/api.py)\<close>

text \<open>
  A price update as it is broadcast; \<open>json.dumps\<close> of it is taken to be the message
  itself. A delivery is one successful \<open>send_text\<close>: the WebSocket and the message.
\<close>

record message =
  m_type :: string
  m_symbol :: string
  m_exchange :: string
  m_data :: pydict
  m_timestamp :: int

type_synonym delivery = "nat \<times> message"

text \<open>
  \<open>WebSocketManager\<close>. \<open>latest_prices\<close> is a dictionary in insertion order: assigning
  to a key that is present keeps its place. \<open>connect\<close> is taken after a successful
  \<open>accept\<close> of the WebSocket.
\<close>

record manager =
  active_connections :: "nat list"
  subscriptions :: "nat \<Rightarrow> string list option"
  latest_prices :: "(string \<times> message) list"
  last_sent :: "string \<Rightarrow> rat option"

fun dict_set :: "string \<Rightarrow> 'v \<Rightarrow> (string \<times> 'v) list \<Rightarrow> (string \<times> 'v) list" where
  "dict_set k v [] = [(k, v)]"
| "dict_set k v ((k', v') # kvs) =
     (if k' = k then (k, v) # kvs else (k', v') # dict_set k v kvs)"

definition connect :: "manager \<Rightarrow> nat \<Rightarrow> manager" where
  "connect m websocket =
     m\<lparr>active_connections := active_connections m @ [websocket],
       subscriptions := (subscriptions m)(websocket \<mapsto> [])\<rparr>"

definition disconnect :: "manager \<Rightarrow> nat \<Rightarrow> manager" where
  "disconnect m websocket =
     m\<lparr>active_connections := remove1 websocket (active_connections m),
       subscriptions := (subscriptions m)(websocket := None)\<rparr>"

definition subscribe_symbol :: "manager \<Rightarrow> nat \<Rightarrow> string \<Rightarrow> manager" where
  "subscribe_symbol m websocket symbol =
     (let m1 = (if subscriptions m websocket = None
                then m\<lparr>subscriptions := (subscriptions m)(websocket \<mapsto> [])\<rparr> else m)
      in case subscriptions m1 websocket of
           None \<Rightarrow> m1
         | Some syms \<Rightarrow>
             (if symbol \<notin> set syms
              then m1\<lparr>subscriptions := (subscriptions m1)(websocket \<mapsto> syms @ [symbol])\<rparr>
              else m1))"

definition unsubscribe_symbol :: "manager \<Rightarrow> nat \<Rightarrow> string \<Rightarrow> manager" where
  "unsubscribe_symbol m websocket symbol =
     (case subscriptions m websocket of
        None \<Rightarrow> m
      | Some syms \<Rightarrow>
          (if symbol \<in> set syms
           then m\<lparr>subscriptions := (subscriptions m)(websocket \<mapsto> remove1 symbol syms)\<rparr>
           else m))"

text \<open>\<open>self.subscriptions.get(websocket, [])\<close>.\<close>

definition subscribed_symbols :: "manager \<Rightarrow> nat \<Rightarrow> string list" where
  "subscribed_symbols m websocket =
     (case subscriptions m websocket of None \<Rightarrow> [] | Some syms \<Rightarrow> syms)"

text \<open>
  \<open>broadcast\<close>: one pass over the connections, sending to those the filter admits and
  collecting those whose send raised; the collected ones are disconnected afterwards.
  The filter applies when it is a non-empty string.
\<close>

fun broadcast_loop :: "env \<Rightarrow> manager \<Rightarrow> message \<Rightarrow> string option \<Rightarrow> nat list
    \<Rightarrow> delivery list \<times> nat list" where
  "broadcast_loop e m msg symbol_filter [] = ([], [])"
| "broadcast_loop e m msg symbol_filter (websocket # rest) =
     (let (sent, disconnected) = broadcast_loop e m msg symbol_filter rest
      in if (case symbol_filter of
               None \<Rightarrow> False
             | Some f \<Rightarrow> f \<noteq> [] \<and> f \<notin> set (subscribed_symbols m websocket))
         then (sent, disconnected)
         else if send_ok e websocket then ((websocket, msg) # sent, disconnected)
         else (sent, websocket # disconnected))"

definition broadcast :: "env \<Rightarrow> manager \<Rightarrow> message \<Rightarrow> string option
    \<Rightarrow> manager \<times> delivery list" where
  "broadcast e m msg symbol_filter =
     (let (sent, disconnected) = broadcast_loop e m msg symbol_filter (active_connections m)
      in (foldl disconnect m disconnected, sent))"

text \<open>
  \<open>push_latest_prices\<close>: for each cached key whose last send is at least half a second
  old, one pass over the connections. A failed send is logged and the client is kept;
  \<open>last_sent\<close> is set when at least one send succeeded.
\<close>

definition push_recipients :: "env \<Rightarrow> manager \<Rightarrow> string \<Rightarrow> nat list" where
  "push_recipients e m symbol_key =
     filter (\<lambda>websocket. symbol_key \<in> set (subscribed_symbols m websocket) \<and> send_ok e websocket)
       (active_connections m)"

definition push_key :: "env \<Rightarrow> string \<times> message \<Rightarrow> manager \<times> delivery list
    \<Rightarrow> manager \<times> delivery list" where
  "push_key e kv acc =
     (let (symbol_key, price_data) = kv; (m, sent) = acc;
          current_time = now e;
          last_sent_time = (case last_sent m symbol_key of None \<Rightarrow> 0 | Some t \<Rightarrow> t)
      in if current_time - last_sent_time \<ge> 1 / 2
         then (let receivers = push_recipients e m symbol_key
               in ((if length receivers > 0
                    then m\<lparr>last_sent := (last_sent m)(symbol_key \<mapsto> current_time)\<rparr>
                    else m),
                   sent @ map (\<lambda>websocket. (websocket, price_data)) receivers))
         else (m, sent))"

definition push_latest_prices :: "env \<Rightarrow> manager \<Rightarrow> manager \<times> delivery list" where
  "push_latest_prices e m = foldl (\<lambda>acc kv. push_key e kv acc) (m, []) (latest_prices m)"

text \<open>One round of \<open>price_pusher_task\<close>, which runs every half second.\<close>

definition price_pusher_round :: "env \<Rightarrow> manager \<Rightarrow> manager \<times> delivery list" where
  "price_pusher_round e m =
     (if active_connections m \<noteq> [] \<and> latest_prices m \<noteq> []
      then push_latest_prices e m else (m, []))"

subsection \<open>The broadcast task of the streamer\<close>

text \<open>
  \<open>_broadcast_update\<close> sends the update to the streamer's own subscribers, dropping
  those whose send raised, stores it in the manager's \<open>latest_prices\<close> and schedules
  \<open>manager.broadcast(message, symbol_key)\<close> on the running loop. It runs as a task, so
  the loop is running. The result carries the deliveries made and the scheduled call.
\<close>

definition update_message :: "env \<Rightarrow> task \<Rightarrow> message" where
  "update_message e t =
     (let (symbol, exchange, price_data) = t
      in \<lparr>m_type = ''price_update'', m_symbol = symbol, m_exchange = exchange,
          m_data = price_data, m_timestamp = trunc (now e * 1000)\<rparr>)"

definition broadcast_update :: "env \<Rightarrow> task \<Rightarrow> streamer \<times> manager
    \<Rightarrow> (streamer \<times> manager) \<times> delivery list \<times> (message \<times> string)" where
  "broadcast_update e t sm =
     (let (symbol, exchange, price_data) = t; (st, m) = sm;
          msg = update_message e t;
          ok = filter (send_ok e) (subscribers st);
          st1 = st\<lparr>broadcast_count := broadcast_count st + length ok,
                    subscribers := ok\<rparr>;
          symbol_key = exchange @ ''_'' @ symbol;
          m1 = m\<lparr>latest_prices := dict_set symbol_key msg (latest_prices m)\<rparr>;
          st2 = st1\<lparr>broadcast_count := broadcast_count st1 + 1\<rparr>
      in ((st2, m1), map (\<lambda>websocket. (websocket, msg)) ok, (msg, symbol_key)))"

text \<open>
  The event loop at work after a feed event: each task the handler created runs, then
  the broadcast it scheduled.
\<close>

fun run_tasks :: "env \<Rightarrow> task list \<Rightarrow> (streamer \<times> manager) \<times> delivery list
    \<Rightarrow> (streamer \<times> manager) \<times> delivery list" where
  "run_tasks e [] acc = acc"
| "run_tasks e (t # ts) (sm, sent) =
     (let (sm1, direct, (msg, symbol_key)) = broadcast_update e t sm;
          (m2, pushed) = broadcast e (snd sm1) msg (Some symbol_key)
      in run_tasks e ts ((fst sm1, m2), sent @ direct @ pushed))"

definition feed_event :: "env \<Rightarrow> string \<Rightarrow> pydict option \<Rightarrow> streamer \<times> manager
    \<Rightarrow> (streamer \<times> manager) \<times> delivery list" where
  "feed_event e topic data sm =
     (let st1 = fst (handle_market_data e (fst sm) topic data)
      in run_tasks e (tasks st1) ((st1\<lparr>tasks := []\<rparr>, snd sm), []))"

section \<open>Example inputs\<close>

text \<open>
  An environment in which everything works and a two-decimal number is stored as it is,
  an empty store, a tick that carries a price and a volume only, and a tick with every
  key set as the feed handler builds it.
\<close>

definition env0 :: env where
  "env0 = \<lparr>today = 0, now = 0, loop_running = True, db_up = True, ticks_up = True,
           send_ok = (\<lambda>w. True), str_float = (\<lambda>s. None), str_int = (\<lambda>s. None),
           num_repr = (\<lambda>r. []), db_decimal = (\<lambda>v. case v of PNum r \<Rightarrow> Some r | _ \<Rightarrow> None)\<rparr>"

definition empty_db :: database where
  "empty_db = \<lparr>prices = Map.empty, ticks = [], tick_id_seq = 1\<rparr>"



text \<open>The streamer and the manager as their constructors leave them.\<close>

definition init_streamer :: streamer where
  "init_streamer = \<lparr>messages_received = 0, last_message_time = None, db_updates = 0,
     broadcast_count = 0, last_db_update = Map.empty, min_update_interval = 1,
     db = empty_db, subscribers = [], running = False, connected = False,
     reconnect_delay = 5, max_reconnect_delay = 60, reconnect_attempts = 0,
     max_reconnect_attempts = 10, token_cache = Map.empty, tasks = [], logged = []\<rparr>"

definition init_manager :: manager where
  "init_manager = \<lparr>active_connections = [], subscriptions = Map.empty, latest_prices = [],
     last_sent = Map.empty\<rparr>"

subsection \<open>Feed events\<close>

text \<open>
  The last price the handler resolves from an event is strictly positive: the first truthy
  one of the fields \<open>lp\<close> and \<open>ltp\<close> is a number above zero, or \<open>inf\<close>. It is not a
  number when that field is \<open>nan\<close>.
\<close>

definition resolved_ltp :: "pydict option \<Rightarrow> pyval" where
  "resolved_ltp data =
     (case data of
        None \<Rightarrow> PNone
      | Some d \<Rightarrow> py_or (py_or (data_get d ''lp'') (data_get d ''ltp'')) (PNum 0))"

definition positive_ltp :: "pydict option \<Rightarrow> bool" where
  "positive_ltp data =
     (case resolved_ltp data of
        PNum r \<Rightarrow> 0 < r
      | PPosInf \<Rightarrow> True
      | _ \<Rightarrow> False)"

definition nan_ltp :: "pydict option \<Rightarrow> bool" where
  "nan_ltp data = (resolved_ltp data = PNaN)"

text \<open>
  Feed events: with a zero price, with a negative price, with \<open>nan\<close> for a price, with
  a text for a price, with a number for a symbol, a well-formed one, and one that names
  its symbol by a numeric token.
\<close>

definition nan_price_event :: "pydict option" where
  "nan_price_event = Some [(''lp'', PNaN), (''v'', PNum 500)]"

definition nan_tick :: task where
  "nan_tick = (''RELIANCE'', ''NSE'',
     [(''ltp'', PNaN), (''open'', PNum 0), (''high'', PNum 0), (''low'', PNum 0),
      (''close'', PNaN), (''volume'', PNum 500), (''oi'', PNum 0), (''bid'', PNum 0),
      (''ask'', PNum 0), (''timestamp'', PNum 0)])"

definition zero_price_event :: "pydict option" where
  "zero_price_event = Some [(''lp'', PNum 0), (''v'', PNum 500)]"

definition negative_price_event :: "pydict option" where
  "negative_price_event = Some [(''ltp'', PNum (- 5)), (''v'', PNum 500)]"

definition text_price_event :: "pydict option" where
  "text_price_event = Some [(''lp'', PStr ''n/a'')]"

definition numeric_symbol_event :: "pydict option" where
  "numeric_symbol_event = Some [(''tk'', PNum 2885), (''e'', PStr ''NSE''), (''lp'', PNum 100)]"

definition good_event :: "pydict option" where
  "good_event = Some [(''lp'', PNum 100), (''v'', PNum 10)]"

text \<open>A streamer that wrote the key at the present instant, and the tick of the well-formed event.\<close>

definition just_written :: streamer where
  "just_written = init_streamer\<lparr>last_db_update := [''RELIANCE.NSE'' \<mapsto> 0]\<rparr>"

definition good_tick :: task where
  "good_tick = (''RELIANCE'', ''NSE'',
     [(''ltp'', PNum 100), (''open'', PNum 0), (''high'', PNum 0), (''low'', PNum 0),
      (''close'', PNum 100), (''volume'', PNum 10), (''oi'', PNum 0), (''bid'', PNum 0),
      (''ask'', PNum 0), (''timestamp'', PNum 0)])"

text \<open>An environment whose store refuses every statement, and one without an event loop.\<close>

definition env_store_down :: env where
  "env_store_down = env0\<lparr>db_up := False\<rparr>"

definition env_no_loop :: env where
  "env_no_loop = env0\<lparr>loop_running := False\<rparr>"

definition token_event :: "pydict option" where
  "token_event = Some [(''tk'', PStr ''99999''), (''e'', PStr ''NSE''), (''lp'', PNum 100)]"

subsection \<open>A price that is not a binary fraction\<close>

text \<open>
  An environment whose store casts a number to the nearest hundredth, as a
  \<open>DECIMAL(12,2)\<close> column does, a tick whose price is the float \<open>100.1\<close>, and the store
  after that tick.
\<close>

definition round_cents :: "rat \<Rightarrow> rat" where
  "round_cents r = of_int \<lfloor>r * 100 + 1 / 2\<rfloor> / 100"

definition env_cents :: env where
  "env_cents = env0\<lparr>db_decimal :=
     (\<lambda>v. case v of
            PNum r \<Rightarrow> if \<bar>round_cents r\<bar> < 10 ^ 10 then Some (round_cents r) else None
          | _ \<Rightarrow> None)\<rparr>"

definition float_tick :: pydict where
  "float_tick = [(''ltp'', PNum (binary64 (1001 / 10))), (''volume'', PNum 10)]"

definition float_db :: database where
  "float_db = snd (upsert_price env_cents ''RELIANCE'' ''NSE'' float_tick empty_db)"

section \<open>Notions for the registry and the fanout\<close>

text \<open>No consumer holds a key twice. Every operation of the manager keeps it so.\<close>

definition registry_distinct :: "manager \<Rightarrow> bool" where
  "registry_distinct m = (\<forall>w syms. subscriptions m w = Some syms \<longrightarrow> distinct syms)"

text \<open>
  What one pass decides for a connection: \<open>broadcast\<close> admits it when there is no filter
  or it is subscribed to the filter; its send fails when it is admitted and \<open>send_text\<close>
  raises. A key is due in \<open>push_latest_prices\<close> when its last send is at least half a
  second old (never sent counts as sent at time 0).
\<close>

definition admitted :: "manager \<Rightarrow> string option \<Rightarrow> nat \<Rightarrow> bool" where
  "admitted m symbol_filter websocket =
     (case symbol_filter of
        None \<Rightarrow> True
      | Some f \<Rightarrow> f = [] \<or> f \<in> set (subscribed_symbols m websocket))"

definition due :: "env \<Rightarrow> manager \<Rightarrow> string \<Rightarrow> bool" where
  "due e m symbol_key =
     (now e - (case last_sent m symbol_key of None \<Rightarrow> 0 | Some t \<Rightarrow> t) \<ge> 1 / 2)"

definition send_fails :: "env \<Rightarrow> manager \<Rightarrow> string option \<Rightarrow> nat \<Rightarrow> bool" where
  "send_fails e m symbol_filter w = (admitted m symbol_filter w \<and> \<not> send_ok e w)"

text \<open>
  The deliveries one pass of \<open>push_latest_prices\<close> makes for one cached entry, and the
  keys whose \<open>last_sent\<close> it sets.
\<close>

definition push_sends :: "env \<Rightarrow> manager \<Rightarrow> string \<times> message \<Rightarrow> delivery list" where
  "push_sends e m kv =
     (if due e m (fst kv) then map (\<lambda>w. (w, snd kv)) (push_recipients e m (fst kv)) else [])"

definition pushed_keys :: "env \<Rightarrow> manager \<Rightarrow> (string \<times> message) list \<Rightarrow> string set" where
  "pushed_keys e m kvs = {k \<in> fst ` set kvs. due e m k \<and> push_recipients e m k \<noteq> []}"

text \<open>
  Managers and messages for the examples: one client subscribed to a key; two clients
  subscribed to the same key with a cached update, the first of which cannot be reached.
\<close>

definition one_client :: manager where
  "one_client = subscribe_symbol (connect init_manager 1) 1 ''NSE_TCS''"

definition reliance_msg :: message where
  "reliance_msg = \<lparr>m_type = ''price_update'', m_symbol = ''RELIANCE'', m_exchange = ''NSE'',
     m_data = snd (snd good_tick), m_timestamp = 0\<rparr>"

definition two_clients :: manager where
  "two_clients = \<lparr>active_connections = [1, 2],
     subscriptions = [1 \<mapsto> [''NSE_RELIANCE''], 2 \<mapsto> [''NSE_RELIANCE'']],
     latest_prices = [(''NSE_RELIANCE'', reliance_msg)], last_sent = Map.empty\<rparr>"

definition env_client1_down :: env where
  "env_client1_down = env0\<lparr>now := 1, send_ok := (\<lambda>w. w \<noteq> 1)\<rparr>"

section \<open>Runs of the fanout\<close>

text \<open>
  The key under which \<open>_broadcast_update\<close> caches and broadcasts a message, and the
  step it takes on the manager: the message becomes the latest one of its key.
\<close>

definition symbol_key_of :: "message \<Rightarrow> string" where
  "symbol_key_of msg = m_exchange msg @ ''_'' @ m_symbol msg"

definition cache_latest :: "message \<Rightarrow> manager \<Rightarrow> manager" where
  "cache_latest msg m = m\<lparr>latest_prices := dict_set (symbol_key_of msg) msg (latest_prices m)\<rparr>"

text \<open>
  A run of the manager. Its events are the calls made on it: a consumer connects,
  disconnects, subscribes or unsubscribes; the streamer's task stores an update and the
  broadcast it scheduled runs (\<open>Update\<close>); the periodic task makes its round (\<open>Push\<close>).
  Every delivery is recorded with the time of the call and where it came from.
\<close>

datatype origin = Pusher | Immediate

record outgoing =
  s_time :: rat
  s_origin :: origin
  s_ws :: nat
  s_msg :: message

datatype manager_event =
    Connect nat
  | Disconnect nat
  | Subscribe nat string
  | Unsubscribe nat string
  | Update env message
  | Push env

definition stamp :: "env \<Rightarrow> origin \<Rightarrow> delivery \<Rightarrow> outgoing" where
  "stamp e origin d = \<lparr>s_time = now e, s_origin = origin, s_ws = fst d, s_msg = snd d\<rparr>"

fun manager_step :: "manager_event \<Rightarrow> manager \<times> outgoing list \<Rightarrow> manager \<times> outgoing list" where
  "manager_step (Connect w) (m, out) = (connect m w, out)"
| "manager_step (Disconnect w) (m, out) = (disconnect m w, out)"
| "manager_step (Subscribe w k) (m, out) = (subscribe_symbol m w k, out)"
| "manager_step (Unsubscribe w k) (m, out) = (unsubscribe_symbol m w k, out)"
| "manager_step (Update e msg) (m, out) =
     (let (m', ds) = broadcast e (cache_latest msg m) msg (Some (symbol_key_of msg))
      in (m', out @ map (stamp e Immediate) ds))"
| "manager_step (Push e) (m, out) =
     (let (m', ds) = price_pusher_round e m in (m', out @ map (stamp e Pusher) ds))"

fun run_from :: "manager \<times> outgoing list \<Rightarrow> manager_event list \<Rightarrow> manager \<times> outgoing list" where
  "run_from s [] = s"
| "run_from s (ev # evs) = run_from (manager_step ev s) evs"

definition manager_run :: "manager_event list \<Rightarrow> manager \<times> outgoing list" where
  "manager_run evs = run_from (init_manager, []) evs"

text \<open>
  Each connection of a run is a new WebSocket, one that is not connected already.
\<close>

fun fresh_from :: "manager \<Rightarrow> manager_event list \<Rightarrow> bool" where
  "fresh_from m [] = True"
| "fresh_from m (ev # evs) =
     ((case ev of Connect w \<Rightarrow> w \<notin> set (active_connections m) | _ \<Rightarrow> True) \<and>
      fresh_from (fst (manager_step ev (m, []))) evs)"

text \<open>The message of the last \<open>Update\<close> for a key in a list of events.\<close>

fun latest_of :: "manager_event list \<Rightarrow> string \<Rightarrow> message option" where
  "latest_of [] k = None"
| "latest_of (ev # evs) k =
     (case latest_of evs k of
        Some x \<Rightarrow> Some x
      | None \<Rightarrow> (case ev of
                   Update e msg \<Rightarrow> if symbol_key_of msg = k then Some msg else None
                 | _ \<Rightarrow> None))"

text \<open>
  Two recorded deliveries are spaced when, if both come from the periodic push and go to
  the same consumer for the same key, the later one is at least half a second after the
  earlier. The invariant of a run: connections and cached keys are without duplicates,
  every cached message sits under its own key, no push delivery is later than the
  \<open>last_sent\<close> of its key, and the record is spaced.
\<close>

definition spaced :: "outgoing \<Rightarrow> outgoing \<Rightarrow> bool" where
  "spaced x y =
     (s_origin x = Pusher \<and> s_origin y = Pusher \<and> s_ws x = s_ws y \<and>
      symbol_key_of (s_msg x) = symbol_key_of (s_msg y) \<longrightarrow> s_time x + 1 / 2 \<le> s_time y)"

definition rate_inv :: "manager \<times> outgoing list \<Rightarrow> bool" where
  "rate_inv s =
     (distinct (active_connections (fst s)) \<and>
      distinct (map fst (latest_prices (fst s))) \<and>
      (\<forall>kv \<in> set (latest_prices (fst s)). symbol_key_of (snd kv) = fst kv) \<and>
      (\<forall>x \<in> set (snd s). s_origin x = Pusher \<longrightarrow>
          (\<exists>ts. last_sent (fst s) (symbol_key_of (s_msg x)) = Some ts \<and> s_time x \<le> ts)) \<and>
      sorted_wrt spaced (snd s))"

text \<open>The consumer and key of a delivery.\<close>

definition tag :: "delivery \<Rightarrow> nat \<times> string" where
  "tag d = (fst d, symbol_key_of (snd d))"

text \<open>
  A burst: three updates of one key within 300 milliseconds, with rounds of the periodic
  task at 1, 1.25 and 1.5 seconds; and a feed event that carries a price only.
\<close>

definition env_at :: "rat \<Rightarrow> env" where
  "env_at t = env0\<lparr>now := t\<rparr>"

definition update_for :: "rat \<Rightarrow> message" where
  "update_for price = update_message env0 (''RELIANCE'', ''NSE'',
     build_price_data env0 [(''lp'', PNum price)])"

definition burst :: "manager_event list" where
  "burst = [Connect 1, Subscribe 1 ''NSE_RELIANCE'',
            Update (env_at 1) (update_for 100), Push (env_at 1),
            Update (env_at (11 / 10)) (update_for 101), Push (env_at (5 / 4)),
            Update (env_at (13 / 10)) (update_for 102), Push (env_at (3 / 2))]"

definition one_subscriber :: manager where
  "one_subscriber = subscribe_symbol (connect init_manager 1) 1 ''NSE_RELIANCE''"

definition price_event :: "rat \<Rightarrow> pydict option" where
  "price_event price = Some [(''lp'', PNum price)]"

section \<open>Properties of the conversion to float\<close>

lemma floor_rat_numeral: "\<lfloor>numeral a / numeral b :: rat\<rfloor> = numeral a div numeral b"
  using floor_divide_of_int_eq[of "numeral a" "numeral b", where ?'a = rat] by simp

lemma round_half_even_of_int [simp]: "round_half_even (of_int n) = n"
  by (simp add: round_half_even_def)

lemma round_half_even_error: "\<bar>of_int (round_half_even x) - x\<bar> \<le> 1 / 2"
proof -
  have "of_int \<lfloor>x\<rfloor> \<le> x" "x < of_int \<lfloor>x\<rfloor> + 1" by linarith+
  then show ?thesis by (auto simp: round_half_even_def Let_def)
qed

text \<open>The exponent is the integer part of the binary logarithm.\<close>

lemma exponent_bounds:
  assumes "x \<noteq> 0"
  shows "2 powi exponent x \<le> \<bar>x\<bar> \<and> \<bar>x\<bar> < 2 powi (exponent x + 1)"
proof (cases "1 \<le> \<bar>x\<bar>")
  case True
  define a where "a = nat \<lfloor>\<bar>x\<bar>\<rfloor>"
  define L where "L = floorlog 2 a"
  have fl: "1 \<le> \<lfloor>\<bar>x\<bar>\<rfloor>" using True by (simp add: le_floor_iff)
  then have a0: "0 < a" by (simp add: a_def)
  have ia: "int a = \<lfloor>\<bar>x\<bar>\<rfloor>" using fl by (simp add: a_def)
  have b: "2 ^ (L - 1) \<le> a" "a < 2 ^ L"
    using floorlog_bounds[of a 2] a0 by (simp_all add: L_def)
  have L1: "1 \<le> L" using a0 by (simp add: L_def floorlog_def)
  have e: "exponent x = int L - 1" using True by (simp add: exponent_def a_def L_def)
  have e': "exponent x = int (L - 1)" using e L1 by simp
  have e1: "exponent x + 1 = int L" using e by simp
  have "(2::rat) ^ (L - 1) \<le> of_nat a"
    using b(1) by (metis of_nat_le_iff of_nat_numeral of_nat_power)
  also have "(of_nat a :: rat) = of_int \<lfloor>\<bar>x\<bar>\<rfloor>" using ia by (metis of_int_of_nat_eq)
  also have "\<dots> \<le> \<bar>x\<bar>" by linarith
  finally have lo: "2 powi exponent x \<le> \<bar>x\<bar>" by (simp only: e' power_int_of_nat)
  have "int a + 1 \<le> 2 ^ L"
    using b(2) by (metis of_nat_less_iff of_nat_numeral of_nat_power zless_imp_add1_zle)
  then have "\<lfloor>\<bar>x\<bar>\<rfloor> + 1 \<le> 2 ^ L" using ia by simp
  then have "(of_int (\<lfloor>\<bar>x\<bar>\<rfloor> + 1) :: rat) \<le> of_int (2 ^ L)" by (simp only: of_int_le_iff)
  then have "(of_int (\<lfloor>\<bar>x\<bar>\<rfloor> + 1) :: rat) \<le> 2 ^ L" by simp
  moreover have "\<bar>x\<bar> < of_int (\<lfloor>\<bar>x\<bar>\<rfloor> + 1)" by linarith
  ultimately have "\<bar>x\<bar> < 2 ^ L" by linarith
  then have hi: "\<bar>x\<bar> < 2 powi (exponent x + 1)" by (simp only: e1 power_int_of_nat)
  show ?thesis using lo hi by simp
next
  case False
  define y where "y = 1 / \<bar>x\<bar>"
  define a where "a = nat (\<lceil>y\<rceil> - 1)"
  define M where "M = floorlog 2 a"
  have xp: "0 < \<bar>x\<bar>" "\<bar>x\<bar> < 1" using assms False by simp_all
  have y1: "1 < y" using xp by (simp add: y_def)
  then have c2: "2 \<le> \<lceil>y\<rceil>" by (simp add: le_ceiling_iff)
  have a0: "0 < a" using c2 by (simp add: a_def)
  have ia: "int a = \<lceil>y\<rceil> - 1" using c2 by (simp add: a_def)
  have b: "2 ^ (M - 1) \<le> a" "a < 2 ^ M"
    using floorlog_bounds[of a 2] a0 by (simp_all add: M_def)
  have M1: "1 \<le> M" using a0 by (simp add: M_def floorlog_def)
  have e: "exponent x = - int M" using False by (simp add: exponent_def a_def M_def y_def)
  have e1: "exponent x + 1 = - int (M - 1)" using e M1 by simp
  have "int a + 1 \<le> 2 ^ M"
    using b(2) by (metis of_nat_less_iff of_nat_numeral of_nat_power zless_imp_add1_zle)
  then have "\<lceil>y\<rceil> \<le> 2 ^ M" using ia by simp
  then have "(of_int \<lceil>y\<rceil> :: rat) \<le> of_int (2 ^ M)" by (simp only: of_int_le_iff)
  then have "(of_int \<lceil>y\<rceil> :: rat) \<le> 2 ^ M" by simp
  moreover have "y \<le> of_int \<lceil>y\<rceil>" by linarith
  ultimately have yM: "y \<le> 2 ^ M" by linarith
  have "1 / 2 ^ M \<le> \<bar>x\<bar>"
    using yM xp(1) by (simp add: y_def field_simps)
  then have lo: "2 powi exponent x \<le> \<bar>x\<bar>"
    by (simp add: e power_int_minus_divide)
  have "(2::int) ^ (M - 1) \<le> int a"
    using b(1) by (metis of_nat_le_iff of_nat_numeral of_nat_power)
  then have "(2::int) ^ (M - 1) \<le> \<lceil>y\<rceil> - 1" using ia by simp
  then have "(of_int (2 ^ (M - 1)) :: rat) \<le> of_int (\<lceil>y\<rceil> - 1)"
    by (simp only: of_int_le_iff)
  then have "(2 :: rat) ^ (M - 1) \<le> of_int (\<lceil>y\<rceil> - 1)" by simp
  moreover have "of_int (\<lceil>y\<rceil> - 1) < y" by linarith
  ultimately have "2 ^ (M - 1) < y" by linarith
  then have "\<bar>x\<bar> < 1 / 2 ^ (M - 1)"
    using xp(1) by (simp add: y_def field_simps)
  then have hi: "\<bar>x\<bar> < 2 powi (exponent x + 1)"
    by (simp add: e1 power_int_minus_divide)
  show ?thesis using lo hi by simp
qed

text \<open>The double is within half a unit in the last place, and it is a binary fraction.\<close>

lemma binary64_error: "\<bar>binary64 x - x\<bar> \<le> 2 powi (exponent x - 53)"
proof -
  define k where "k = exponent x - 52"
  have p: "(0::rat) < 2 powi k" by simp
  have "binary64 x - x = (of_int (round_half_even (x / 2 powi k)) - x / 2 powi k) * 2 powi k"
    using p by (simp add: binary64_def Let_def k_def field_simps)
  then have "\<bar>binary64 x - x\<bar>
      = \<bar>of_int (round_half_even (x / 2 powi k)) - x / 2 powi k\<bar> * 2 powi k"
    using p by (simp add: abs_mult)
  also have "\<dots> \<le> 1 / 2 * 2 powi k"
    using round_half_even_error[of "x / 2 powi k"] p by (intro mult_right_mono) simp_all
  also have "\<dots> = 2 powi (exponent x - 53)"
    by (simp add: k_def power_int_diff)
  finally show ?thesis .
qed

lemma binary64_zero [simp]: "binary64 0 = 0"
  by (simp add: binary64_def round_half_even_def)

lemma binary64_relative_error: "\<bar>binary64 x - x\<bar> \<le> \<bar>x\<bar> / 2 ^ 53"
proof (cases "x = 0")
  case True
  then show ?thesis by simp
next
  case False
  have "(2::rat) powi (exponent x - 53) = 2 powi exponent x / 2 ^ 53"
    by (simp add: power_int_diff)
  also have "\<dots> \<le> \<bar>x\<bar> / 2 ^ 53"
    using exponent_bounds[OF False] by (simp add: divide_right_mono)
  finally show ?thesis using binary64_error[of x] by linarith
qed

lemma binary64_dyadic: "\<exists>n k. binary64 x = of_int n * 2 powi k"
  by (auto simp: binary64_def Let_def)

text \<open>An integer below \<open>2 ^ 53\<close> is a double.\<close>

lemma exponent_of_int:
  assumes "n \<noteq> 0" "\<bar>n\<bar> < 2 ^ 53"
  shows "exponent (of_int n) \<le> 52"
proof -
  have a: "1 \<le> \<bar>of_int n :: rat\<bar>"
    using assms(1) by (simp flip: of_int_abs add: of_int_le_iff[of 1, simplified])
  have f: "\<lfloor>\<bar>of_int n :: rat\<bar>\<rfloor> = \<bar>n\<bar>" by (simp flip: of_int_abs)
  have e: "exponent (of_int n) = int (floorlog 2 (nat \<bar>n\<bar>)) - 1"
    using a by (simp add: exponent_def f)
  have "nat \<bar>n\<bar> < 2 ^ 53" using assms(2) by (simp add: nat_less_iff)
  then have "floorlog 2 (nat \<bar>n\<bar>) \<le> 53" by (intro floorlog_leI) simp_all
  then show "exponent (of_int n) \<le> 52" using e by simp
qed

lemma binary64_of_int:
  assumes "\<bar>n\<bar> < 2 ^ 53"
  shows "binary64 (of_int n) = of_int n"
proof (cases "n = 0")
  case True
  then show ?thesis by simp
next
  case False
  define j where "j = nat (52 - exponent (of_int n))"
  have k: "exponent (of_int n) - 52 = - int j"
    using exponent_of_int[OF False assms] by (simp add: j_def)
  have "(of_int n :: rat) / 2 powi (- int j) = of_int (n * 2 ^ j)"
    by (simp add: power_int_minus field_simps)
  then have "round_half_even (of_int n / 2 powi (- int j)) = n * 2 ^ j"
    by (simp only: round_half_even_of_int)
  then show ?thesis
    by (simp add: binary64_def Let_def k power_int_minus)
qed

lemma binary64_numeral:
  "(numeral n :: int) < 2 ^ 53 \<Longrightarrow> binary64 (numeral n) = numeral n"
  using binary64_of_int[of "numeral n"] by simp

text \<open>
  A decimal with two places that is a binary fraction is a multiple of a quarter.
\<close>

lemma cents_dyadic:
  assumes "(of_int n :: rat) / 100 = of_int m * 2 powi k"
  shows "25 dvd n"
proof (cases "0 \<le> k")
  case True
  then obtain j where j: "k = int j" by (metis nonneg_int_cases)
  have "(of_int n :: rat) = of_int (100 * m * 2 ^ j)" using assms by (simp add: j field_simps)
  then have "n = 100 * m * 2 ^ j" by (simp only: of_int_eq_iff)
  then show ?thesis by simp
next
  case False
  define j where "j = nat (- k)"
  have j: "k = - int j" using False by (simp add: j_def)
  have "(of_int (n * 2 ^ j) :: rat) = of_int (100 * m)"
    using assms by (simp add: j power_int_minus field_simps)
  then have "n * 2 ^ j = 100 * m" by (simp only: of_int_eq_iff)
  then have "25 dvd n * 2 ^ j" by simp
  moreover have "coprime (25 :: int) (2 ^ j)"
    by (simp add: coprime_power_right_iff coprime_right_2_iff_odd)
  ultimately show ?thesis by (simp add: coprime_dvd_mult_left_iff)
qed

lemma power_int_two_less:
  assumes "(2::rat) powi a < 2 powi b"
  shows "a < b"
proof (rule ccontr)
  assume "\<not> a < b"
  then have "b \<le> a" by simp
  then have "(2::rat) powi b \<le> 2 powi a" by (intro power_int_increasing) simp_all
  then show False using assms by simp
qed

text \<open>A number with a significand below \<open>2 ^ 53\<close> is a double.\<close>

lemma binary64_exact:
  assumes "\<bar>m\<bar> < 2 ^ 53"
  shows "binary64 (of_int m * 2 powi j) = of_int m * 2 powi j"
proof (cases "m = 0")
  case True
  then show ?thesis by simp
next
  case False
  define x :: rat where "x = of_int m * 2 powi j"
  define k where "k = exponent x - 52"
  have x0: "x \<noteq> 0" using False by (simp add: x_def)
  have ax: "\<bar>x\<bar> = of_int \<bar>m\<bar> * 2 powi j" by (simp add: x_def abs_mult)
  have "(of_int \<bar>m\<bar> :: rat) < 2 ^ 53" using assms by simp
  then have "\<bar>x\<bar> < 2 ^ 53 * 2 powi j"
    unfolding ax by (intro mult_strict_right_mono) simp_all
  also have "\<dots> = 2 powi (53 + j)" by (simp add: power_int_add)
  finally have "2 powi exponent x < (2::rat) powi (53 + j)"
    using exponent_bounds[OF x0] by linarith
  then have "exponent x < 53 + j" by (rule power_int_two_less)
  then have kj: "k \<le> j" by (simp add: k_def)
  define i where "i = nat (j - k)"
  have ji: "j = k + int i" using kj by (simp add: i_def)
  have xk: "x = of_int (m * 2 ^ i) * 2 powi k"
    unfolding x_def ji by (simp add: power_int_add)
  have "x / 2 powi k = of_int (m * 2 ^ i)"
    unfolding xk by simp
  then have "round_half_even (x / 2 powi k) = m * 2 ^ i"
    by (simp only: round_half_even_of_int)
  then have "binary64 x = of_int (m * 2 ^ i) * 2 powi k"
    by (simp add: binary64_def Let_def k_def)
  then have "binary64 x = x" using xk by simp
  then show ?thesis by (simp add: x_def)
qed

text \<open>
  A decimal with two places within the range of \<open>DECIMAL(12,2)\<close> is a double exactly
  when it is a multiple of a quarter.
\<close>

lemma cents_exact_iff:
  assumes "\<bar>n\<bar> < 10 ^ 12"
  shows "binary64 (of_int n / 100) = of_int n / 100 \<longleftrightarrow> 25 dvd n"
proof
  assume "binary64 (of_int n / 100) = of_int n / 100"
  moreover obtain m k where "binary64 (of_int n / 100) = of_int m * 2 powi k"
    using binary64_dyadic by blast
  ultimately have "(of_int n :: rat) / 100 = of_int m * 2 powi k" by simp
  then show "25 dvd n" by (rule cents_dyadic)
next
  assume "25 dvd n"
  then obtain q where q: "n = 25 * q" by (auto simp: dvd_def)
  have "\<bar>q\<bar> < 2 ^ 53" using assms q by simp
  then have "binary64 (of_int q * 2 powi (- 2)) = of_int q * 2 powi (- 2)"
    by (rule binary64_exact)
  moreover have "(of_int n :: rat) / 100 = of_int q * 2 powi (- 2)"
    by (simp add: q power_int_minus_divide)
  ultimately show "binary64 (of_int n / 100) = of_int n / 100" by simp
qed

text \<open>Comparisons of floats that are numbers.\<close>

lemma py_max_Finite [simp]: "py_max (Finite a) (Finite b) = Finite (max a b)"
  by (simp add: py_max_def max_def)

lemma py_min_Finite [simp]: "py_min (Finite a) (Finite b) = Finite (min a b)"
  by (simp add: py_min_def min_def)

text \<open>The definitions that evaluate the handler and the store on a given input.\<close>

lemmas eval_handler = handle_market_data_def handle_body_def validate_event_def resolve_def
  parse_topic_def Let_def build_price_data_def data_get_def dict_get_def py_or_def
  data_truthy_def create_task_def store_update_def add_log_def epoch_ms_def trunc_def

lemmas eval_store = upsert_price_def upsert_body_def bind_err_def insert_row_def
  update_row_def insert_tick_def insert_tick_row_def db_bigint_def overflows_def
  binary64_numeral

section \<open>Properties of the aggregate store\<close>

subsection \<open>One upsert\<close>



lemma stored_exactly_cast:
  "stored_exactly e a \<Longrightarrow> db_decimal e (PNum a) = Some a"
  "stored_exactly e a \<Longrightarrow> binary64 a = a"
  by (simp_all add: stored_exactly_def)


















section \<open>Properties of the read operations\<close>

text \<open>
  Claim C8 (as amended). Every price a read operation returns (\<open>open\<close>, \<open>high\<close>,
  \<open>low\<close>, \<open>close\<close> and \<open>ltp\<close> of \<open>get_current_price\<close>; \<open>open\<close>, \<open>high\<close>,
  \<open>low\<close> and \<open>close\<close> of \<open>get_price_history\<close>; \<open>ltp\<close>, \<open>bid\<close> and \<open>ask\<close> of
  \<open>get_recent_ticks\<close>) is \<open>float\<close> of a stored \<open>DECIMAL(12,2)\<close> value: the double
  nearest to it. That double is a binary fraction, it is within a relative error of
  \<open>1 / 2 ^ 53\<close> of the stored decimal, and it is the stored decimal itself exactly when that
  is a multiple of 0.25.
\<close>

theorem read_prices_are_doubles:
  "(\<forall>q. get_current_price e symbol exchange store = Some q \<longrightarrow>
      (\<exists>row. prices store (today e, symbol, exchange) = Some row \<and>
         q_open q = Finite (binary64 (p_open row)) \<and> q_high q = Finite (binary64 (p_high row)) \<and>
         q_low q = Finite (binary64 (p_low row)) \<and> q_close q = Finite (binary64 (p_close row)) \<and>
         q_ltp q = Finite (binary64 (p_close row))))
   \<and> (\<forall>b \<in> set (get_price_history e symbol exchange days store).
        \<exists>row. prices store (b_date b, symbol, exchange) = Some row \<and>
          b_open b = Finite (binary64 (p_open row)) \<and> b_high b = Finite (binary64 (p_high row)) \<and>
          b_low b = Finite (binary64 (p_low row)) \<and> b_close b = Finite (binary64 (p_close row)))
   \<and> (\<forall>k \<in> set (get_recent_ticks e symbol exchange limit store).
        \<exists>row \<in> set (ticks store). k_ltp k = Finite (binary64 (t_ltp row)) \<and>
          k_bid k = Finite (binary64 (t_bid row)) \<and> k_ask k = Finite (binary64 (t_ask row)))
   \<and> (\<forall>x. \<exists>n j. binary64 x = of_int n * 2 powi j)
   \<and> (\<forall>x. \<bar>binary64 x - x\<bar> \<le> \<bar>x\<bar> / 2 ^ 53)
   \<and> (\<forall>n. \<bar>n\<bar> < 10 ^ 12 \<longrightarrow>
         (binary64 (of_int n / 100) = of_int n / 100 \<longleftrightarrow> 25 dvd n))"
proof -
  have a: "\<exists>row. prices store (today e, symbol, exchange) = Some row \<and>
         q_open q = Finite (binary64 (p_open row)) \<and> q_high q = Finite (binary64 (p_high row)) \<and>
         q_low q = Finite (binary64 (p_low row)) \<and> q_close q = Finite (binary64 (p_close row)) \<and>
         q_ltp q = Finite (binary64 (p_close row))"
    if "get_current_price e symbol exchange store = Some q" for q
    using that
    by (auto simp: get_current_price_def decimal_float_def split: if_splits option.splits)
  have b: "\<exists>row. prices store (b_date b, symbol, exchange) = Some row \<and>
          b_open b = Finite (binary64 (p_open row)) \<and> b_high b = Finite (binary64 (p_high row)) \<and>
          b_low b = Finite (binary64 (p_low row)) \<and> b_close b = Finite (binary64 (p_close row))"
    if bm: "b \<in> set (get_price_history e symbol exchange days store)" for b
  proof -
    have "b \<in> set (concat (map (history_row symbol exchange store) (rev [0..<Suc (today e)])))"
      using bm by (auto simp: get_price_history_def split: if_splits dest: in_set_takeD)
    then obtain d where "b \<in> set (history_row symbol exchange store d)" by auto
    then show ?thesis
      by (cases "prices store (d, symbol, exchange)")
        (auto simp: history_row_def decimal_float_def)
  qed
  have c: "\<exists>row \<in> set (ticks store). k_ltp k = Finite (binary64 (t_ltp row)) \<and>
          k_bid k = Finite (binary64 (t_bid row)) \<and> k_ask k = Finite (binary64 (t_ask row))"
    if km: "k \<in> set (get_recent_ticks e symbol exchange limit store)" for k
  proof -
    have "k \<in> tick_result_of ` set (ticks store)"
      using km by (auto simp: get_recent_ticks_def split: if_splits dest!: in_set_takeD)
    then show ?thesis by (auto simp: tick_result_of_def decimal_float_def)
  qed
  show ?thesis
    using a b c binary64_dyadic binary64_relative_error cents_exact_iff by blast
qed

text \<open>
  The float \<open>100.1\<close> is stored as the decimal \<open>100.10\<close>, and the store after that tick
  is read.
\<close>

lemma binary64_float_price: "binary64 (1001 / 10) = 3521955646092083 / 35184372088832"
  by (simp add: binary64_def exponent_def compute_floorlog round_half_even_def Let_def
      power_int_minus floor_rat_numeral)

lemma binary64_float_price_fixed:
  "binary64 (3521955646092083 / 35184372088832) = 3521955646092083 / 35184372088832"
  using binary64_exact[of 3521955646092083 "- 45"] by (simp add: power_int_minus_divide)

lemma round_cents_float_price: "round_cents (3521955646092083 / 35184372088832) = 1001 / 10"
  by (simp add: round_cents_def floor_rat_numeral)

lemma round_cents_zero: "round_cents 0 = 0"
proof -
  have "\<lfloor>1 / 2 :: rat\<rfloor> = 0" by (rule floor_unique) simp_all
  then show ?thesis by (simp add: round_cents_def)
qed

lemma float_db_value:
  "float_db = \<lparr>prices = [(0, ''RELIANCE'', ''NSE'') \<mapsto>
                  \<lparr>p_open = 1001 / 10, p_high = 1001 / 10, p_low = 1001 / 10, p_close = 1001 / 10,
                    p_volume = 10, p_oi = 0, p_last_updated = 0\<rparr>],
               ticks = [\<lparr>t_id = 1, t_timestamp = 0, t_symbol = ''RELIANCE'', t_exchange = ''NSE'',
                         t_ltp = 1001 / 10, t_volume = 10, t_oi = 0, t_bid = 0, t_ask = 0\<rparr>],
               tick_id_seq = 2\<rparr>"
  by (simp add: float_db_def float_tick_def env_cents_def env0_def empty_db_def eval_store
      dict_get_def trunc_def Let_def binary64_float_price binary64_float_price_fixed
      round_cents_float_price round_cents_zero)

theorem read_prices_are_doubles_witness:
  "map_option q_ltp (get_current_price env_cents ''RELIANCE'' ''NSE'' float_db)
     = Some (Finite (binary64 (1001 / 10))) \<and>
   map b_close (get_price_history env_cents ''RELIANCE'' ''NSE'' 30 float_db)
     = [Finite (binary64 (1001 / 10))] \<and>
   map k_ltp (get_recent_ticks env_cents ''RELIANCE'' ''NSE'' 100 float_db)
     = [Finite (binary64 (1001 / 10))] \<and>
   binary64 (1001 / 10) \<noteq> 1001 / 10 \<and> binary64 (401 / 4) = 401 / 4 \<and>
   \<bar>binary64 (1001 / 10) - 1001 / 10\<bar> \<le> (1001 / 10) / 2 ^ 53"
proof -
  note t = read_prices_are_doubles[of env_cents "''RELIANCE''" "''NSE''" float_db 30 100]
  note near = t[THEN conjunct2, THEN conjunct2, THEN conjunct2, THEN conjunct2,
      THEN conjunct1, rule_format]
  note cents = t[THEN conjunct2, THEN conjunct2, THEN conjunct2, THEN conjunct2,
      THEN conjunct2, rule_format]
  have a: "map_option q_ltp (get_current_price env_cents ''RELIANCE'' ''NSE'' float_db)
     = Some (Finite (binary64 (1001 / 10)))"
    by (simp add: float_db_value get_current_price_def decimal_float_def env_cents_def env0_def)
  have b: "map b_close (get_price_history env_cents ''RELIANCE'' ''NSE'' 30 float_db)
     = [Finite (binary64 (1001 / 10))]"
    by (simp add: float_db_value get_price_history_def history_row_def decimal_float_def
        env_cents_def env0_def)
  have c: "map k_ltp (get_recent_ticks env_cents ''RELIANCE'' ''NSE'' 100 float_db)
     = [Finite (binary64 (1001 / 10))]"
    by (simp add: float_db_value get_recent_ticks_def tick_result_of_def decimal_float_def
        env_cents_def env0_def)
  have d: "binary64 (1001 / 10) \<noteq> 1001 / 10"
  proof -
    have "binary64 (of_int 10010 / 100) = of_int 10010 / 100 \<longleftrightarrow> 25 dvd (10010 :: int)"
      using cents[of 10010] by simp
    then show ?thesis by simp
  qed
  have e: "binary64 (401 / 4) = 401 / 4"
  proof -
    have "binary64 (of_int 10025 / 100) = of_int 10025 / 100 \<longleftrightarrow> 25 dvd (10025 :: int)"
      using cents[of 10025] by simp
    then show ?thesis by simp
  qed
  have f: "\<bar>binary64 (1001 / 10) - 1001 / 10\<bar> \<le> (1001 / 10) / 2 ^ 53"
  proof -
    have "\<bar>binary64 (1001 / 10) - 1001 / 10\<bar> \<le> \<bar>1001 / 10 :: rat\<bar> / 2 ^ 53"
      using near[of "1001 / 10"] by simp
    then show ?thesis by simp
  qed
  show ?thesis using a b c d e f by simp
qed

text \<open>
  The claim as stated fails: the decimal \<open>100.10\<close> is stored, and each read operation
  returns the double \<open>100.099999999999994315658\<dots>\<close> for it.
\<close>

theorem stored_decimal_read_as_float:
  "map_option p_close (prices float_db (0, ''RELIANCE'', ''NSE'')) = Some (1001 / 10) \<and>
   map_option q_ltp (get_current_price env_cents ''RELIANCE'' ''NSE'' float_db)
     = Some (Finite (3521955646092083 / 35184372088832)) \<and>
   map b_high (get_price_history env_cents ''RELIANCE'' ''NSE'' 30 float_db)
     = [Finite (3521955646092083 / 35184372088832)] \<and>
   map k_ltp (get_recent_ticks env_cents ''RELIANCE'' ''NSE'' 100 float_db)
     = [Finite (3521955646092083 / 35184372088832)] \<and>
   (3521955646092083 / 35184372088832 :: rat) \<noteq> 1001 / 10"
  by (simp add: float_db_value get_current_price_def get_price_history_def history_row_def
      get_recent_ticks_def tick_result_of_def decimal_float_def binary64_float_price
      env_cents_def env0_def)

section \<open>Properties of the feed handler\<close>

lemma add_log_frame [simp]:
  "db (add_log l msg st) = db st" "tasks (add_log l msg st) = tasks st"
  "last_db_update (add_log l msg st) = last_db_update st"
  by (simp_all add: add_log_def)

lemma map_token_frame:
  "map_token st s x = (r, st') \<Longrightarrow> db st' = db st \<and> tasks st' = tasks st"
  by (auto simp: map_token_def split: sum.splits prod.splits if_splits)

lemma resolve_frame:
  "db (snd (resolve st topic data)) = db st \<and> tasks (snd (resolve st topic data)) = tasks st"
  by (auto simp: resolve_def Let_def split: prod.splits option.splits pyval.splits
      dest: map_token_frame)

lemma validate_event_frame:
  "db (fst (validate_event e st topic data)) = db st \<and>
   tasks (fst (validate_event e st topic data)) = tasks st"
proof -
  let ?st0 = "st\<lparr>messages_received := messages_received st + 1,
                   last_message_time := Some (now e)\<rparr>"
  have "db (snd (resolve ?st0 topic data)) = db st \<and> tasks (snd (resolve ?st0 topic data)) = tasks st"
    using resolve_frame[of ?st0 topic data] by simp
  then show ?thesis
    by (auto simp: validate_event_def Let_def split: prod.splits sum.splits option.splits bool.splits)
qed

lemma build_price_data_ltp:
  "dict_get (build_price_data e d) ''ltp'' PNone
     = py_or (py_or (data_get d ''lp'') (data_get d ''ltp'')) (PNum 0)"
  by (simp add: build_price_data_def dict_get_def)

lemma build_price_data_ltp0:
  "dict_get (build_price_data e d) ''ltp'' (PNum 0)
     = py_or (py_or (data_get d ''lp'') (data_get d ''ltp'')) (PNum 0)"
  by (simp add: build_price_data_def dict_get_def)

lemma invalid_ltp_False:
  "invalid_ltp v = Inr False \<Longrightarrow> (\<exists>r. v = PNum r \<and> 0 < r) \<or> v = PNaN \<or> v = PPosInf"
  by (cases v) (auto split: if_splits)

lemma validate_event_Some:
  assumes "snd (validate_event e st topic data) = Inr (Some t)"
  shows "(positive_ltp data \<or> nan_ltp data) \<and>
         dict_get (snd (snd t)) ''ltp'' (PNum 0) = resolved_ltp data"
  using assms
  by (auto simp: validate_event_def Let_def positive_ltp_def nan_ltp_def resolved_ltp_def
      build_price_data_ltp build_price_data_ltp0
      split: prod.splits sum.splits option.splits bool.splits if_splits
      dest!: invalid_ltp_False)

lemma handle_body_dropped:
  assumes "\<forall>t. snd (validate_event e st topic data) \<noteq> Inr (Some t)"
  shows "fst (handle_body e st topic data) = fst (validate_event e st topic data)"
  using assms by (auto simp: handle_body_def split: prod.splits sum.splits option.splits)

lemma handle_market_data_frame:
  "db (fst (handle_market_data e st topic data)) = db (fst (handle_body e st topic data)) \<and>
   tasks (fst (handle_market_data e st topic data)) = tasks (fst (handle_body e st topic data))"
  by (simp add: handle_market_data_def split: prod.splits option.splits)

text \<open>
  An event whose resolved last price is neither strictly positive nor \<open>nan\<close> is dropped by
  the check: the whole store stays as it was (no row of \<open>prices\<close>, no row of the tick
  log, and the sequence) and no broadcast task is created.
\<close>

lemma dropped_tick_changes_nothing:
  assumes "\<not> positive_ltp data" and "\<not> nan_ltp data"
  shows "db (fst (handle_market_data e st topic data)) = db st \<and>
         tasks (fst (handle_market_data e st topic data)) = tasks st"
proof -
  have "\<forall>t. snd (validate_event e st topic data) \<noteq> Inr (Some t)"
    using assms validate_event_Some by blast
  then have "fst (handle_body e st topic data) = fst (validate_event e st topic data)"
    by (rule handle_body_dropped)
  then show ?thesis
    using handle_market_data_frame[of e st topic data] validate_event_frame[of e st topic data]
    by simp
qed

lemma dropped_tick_examples:
  "\<not> positive_ltp zero_price_event \<and> \<not> positive_ltp negative_price_event \<and>
   db (fst (handle_market_data env0 init_streamer ''NSE_RELIANCE_QUOTE'' zero_price_event))
     = empty_db \<and>
   tasks (fst (handle_market_data env0 init_streamer ''NSE_RELIANCE_QUOTE'' zero_price_event)) = [] \<and>
   db (fst (handle_market_data env0 init_streamer ''NSE_RELIANCE_QUOTE'' negative_price_event))
     = empty_db"
  using dropped_tick_changes_nothing[of zero_price_event env0 init_streamer "''NSE_RELIANCE_QUOTE''"]
    dropped_tick_changes_nothing[of negative_price_event env0 init_streamer "''NSE_RELIANCE_QUOTE''"]
  by (simp add: positive_ltp_def nan_ltp_def resolved_ltp_def zero_price_event_def
      negative_price_event_def py_or_def data_get_def dict_get_def init_streamer_def)

text \<open>
  A \<open>nan\<close> passes the check and reaches \<open>upsert_price\<close>, where the write of the close
  is refused: the store stays as it was.
\<close>

lemma upsert_price_nan:
  assumes "dict_get price_data ''ltp'' (PNum 0) = PNaN"
  shows "upsert_price e symbol exchange price_data store = (False, store)"
  using assms
  by (simp add: upsert_price_def upsert_body_def bind_err_def update_row_def insert_row_def
      Let_def split: sum.splits option.splits)

lemma store_update_nan:
  assumes "dict_get price_data ''ltp'' (PNum 0) = PNaN"
  shows "db (store_update e symbol exchange price_data st) = db st"
  using assms by (simp add: store_update_def Let_def upsert_price_nan split: option.splits)

lemma create_task_db [simp]: "db (fst (create_task e t st)) = db st"
  by (simp add: create_task_def)

lemma not_positive_store_unchanged:
  assumes "\<not> positive_ltp data"
  shows "db (fst (handle_market_data e st topic data)) = db st"
proof (cases "\<exists>t. snd (validate_event e st topic data) = Inr (Some t)")
  case False
  then have "fst (handle_body e st topic data) = fst (validate_event e st topic data)"
    by (intro handle_body_dropped) simp
  then show ?thesis
    using handle_market_data_frame[of e st topic data] validate_event_frame[of e st topic data]
    by simp
next
  case True
  then obtain t where t: "snd (validate_event e st topic data) = Inr (Some t)" by blast
  obtain st1 where v: "validate_event e st topic data = (st1, Inr (Some t))"
    using t by (cases "validate_event e st topic data") simp
  obtain symbol exchange price_data where tt: "t = (symbol, exchange, price_data)"
    by (cases t) auto
  have "dict_get price_data ''ltp'' (PNum 0) = PNaN"
    using validate_event_Some[OF t] assms tt by (simp add: nan_ltp_def)
  then have "db (store_update e symbol exchange price_data st1) = db st1"
    by (rule store_update_nan)
  moreover have "db st1 = db st" using validate_event_frame[of e st topic data] v by simp
  moreover have "handle_body e st topic data
      = create_task e t (store_update e symbol exchange price_data st1)"
    using v tt by (simp add: handle_body_def)
  ultimately show ?thesis
    using handle_market_data_frame[of e st topic data] by simp
qed

text \<open>
  Claim C2 fails on the code. The check \<open>not ltp or ltp <= 0\<close> is false for \<open>nan\<close>,
  a last price that is not strictly positive: the event is validated, \<open>upsert_price\<close>
  is called (it refuses the write, so the store stays as it was, and a warning is logged)
  and the tick is forwarded: a broadcast task is created, and a consumer subscribed to the
  key receives the update.
\<close>

theorem nan_price_forwarded:
  "\<not> positive_ltp nan_price_event \<and>
   validated_tick env0 init_streamer ''NSE_RELIANCE'' nan_price_event = Some nan_tick \<and>
   tasks (fst (handle_market_data env0 init_streamer ''NSE_RELIANCE'' nan_price_event))
     = [nan_tick] \<and>
   db (fst (handle_market_data env0 init_streamer ''NSE_RELIANCE'' nan_price_event)) = empty_db \<and>
   logged (fst (handle_market_data env0 init_streamer ''NSE_RELIANCE'' nan_price_event))
     = [(WARNING, ''Failed to update database'')] \<and>
   snd (feed_event env0 ''NSE_RELIANCE'' nan_price_event (init_streamer, one_subscriber))
     = [(1, update_message env0 nan_tick)]"
  by (simp add: eval_handler eval_store validated_tick_def nan_price_event_def nan_tick_def
      positive_ltp_def
      resolved_ltp_def feed_event_def broadcast_update_def broadcast_def
      subscribed_symbols_def connect_def subscribe_symbol_def disconnect_def one_subscriber_def
      init_manager_def init_streamer_def empty_db_def env0_def update_message_def)

text \<open>
  Claim C10. \<open>_handle_market_data\<close> returns normally on every event, in every
  environment and state: no exception of its body reaches the caller.
\<close>

theorem handle_market_data_returns:
  "snd (handle_market_data e st topic data) = None"
  by (simp add: handle_market_data_def split: prod.splits option.splits)

text \<open>
  The body does raise: on a message that is \<open>None\<close>, on a text where the price should
  be, on a number where the symbol should be, and when no event loop is running.
\<close>

lemma handle_body_raises:
  "snd (handle_body env0 init_streamer ''NSE_RELIANCE'' None) = Some AttributeError"
  "snd (handle_body env0 init_streamer ''NSE_RELIANCE'' text_price_event) = Some TypeError"
  "snd (handle_body env0 init_streamer ''tick'' numeric_symbol_event) = Some AttributeError"
  "snd (handle_body (env0\<lparr>loop_running := False\<rparr>) init_streamer ''NSE_RELIANCE'' good_event)
     = Some RuntimeError"
  by (simp_all add: handle_body_def validate_event_def resolve_def parse_topic_def Let_def
      text_price_event_def numeric_symbol_event_def good_event_def build_price_data_def
      data_get_def dict_get_def py_or_def data_truthy_def create_task_def env0_def)

theorem handle_market_data_returns_witness:
  "snd (handle_body env0 init_streamer ''NSE_RELIANCE'' text_price_event) = Some TypeError \<and>
   snd (handle_market_data env0 init_streamer ''NSE_RELIANCE'' text_price_event) = None"
  using handle_market_data_returns[of env0 init_streamer "''NSE_RELIANCE''" text_price_event]
    handle_body_raises(2)
  by simp

lemma store_update_tasks [simp]:
  "tasks (store_update e symbol exchange price_data st) = tasks st"
  by (simp add: store_update_def Let_def split: prod.splits bool.splits option.splits)

lemma store_update_rate_limited:
  assumes "last_db_update st (symbol @ ''.'' @ exchange) = Some t0"
    and "now e - t0 < min_update_interval st"
  shows "store_update e symbol exchange price_data st = st"
  using assms by (simp add: store_update_def Let_def)

lemma upsert_price_db_down:
  "\<not> db_up e \<Longrightarrow> upsert_price e symbol exchange price_data store = (False, store)"
  by (simp add: upsert_price_def upsert_body_def bind_err_def split: sum.splits)

lemma store_update_db_down:
  assumes "\<not> db_up e"
  shows "db (store_update e symbol exchange price_data st) = db st"
  using assms by (simp add: store_update_def Let_def upsert_price_db_down split: option.splits)

text \<open>
  Where the calling thread has a running event loop, every validated tick is handed to
  the broadcaster as a task and the handler returns normally, whatever the rate limit and
  the store do.
\<close>

lemma validated_tick_forwarded:
  assumes "loop_running e"
    and "snd (validate_event e st topic data) = Inr (Some t)"
  shows "tasks (fst (handle_market_data e st topic data)) = tasks st @ [t] \<and>
         snd (handle_market_data e st topic data) = None"
proof -
  obtain st1 where v: "validate_event e st topic data = (st1, Inr (Some t))"
    using assms(2) by (cases "validate_event e st topic data") simp
  have t1: "tasks st1 = tasks st"
    using validate_event_frame[of e st topic data] v by simp
  obtain symbol exchange price_data where t: "t = (symbol, exchange, price_data)"
    by (cases t) auto
  have "handle_body e st topic data
          = create_task e t (store_update e symbol exchange price_data st1)"
    using v t by (simp add: handle_body_def)
  then have "handle_body e st topic data
          = ((store_update e symbol exchange price_data st1)
               \<lparr>tasks := tasks (store_update e symbol exchange price_data st1) @ [t]\<rparr>, None)"
    using assms(1) by (simp add: create_task_def)
  then show ?thesis
    using t1 by (simp add: handle_market_data_def)
qed

lemma good_event_valid:
  "snd (validate_event e init_streamer ''NSE_RELIANCE'' good_event)
     = Inr (Some (''RELIANCE'', ''NSE'', build_price_data e [(''lp'', PNum 100), (''v'', PNum 10)]))"
  "snd (validate_event e just_written ''NSE_RELIANCE'' good_event)
     = Inr (Some (''RELIANCE'', ''NSE'', build_price_data e [(''lp'', PNum 100), (''v'', PNum 10)]))"
  by (simp_all add: validate_event_def resolve_def parse_topic_def Let_def good_event_def
      build_price_data_def data_get_def dict_get_def py_or_def data_truthy_def
      just_written_def init_streamer_def)

lemma build_good: "build_price_data env0 [(''lp'', PNum 100), (''v'', PNum 10)] = snd (snd good_tick)"
  by (simp add: build_price_data_def good_tick_def data_get_def dict_get_def py_or_def
      epoch_ms_def env0_def trunc_def)

text \<open>
  A tick inside the rate-limit window and a tick whose store write fails: neither is
  persisted, both are forwarded.
\<close>

lemma validated_tick_forwarded_examples:
  "tasks (fst (handle_market_data env0 just_written ''NSE_RELIANCE'' good_event)) = [good_tick] \<and>
   db (fst (handle_market_data env0 just_written ''NSE_RELIANCE'' good_event)) = empty_db \<and>
   tasks (fst (handle_market_data env_store_down init_streamer ''NSE_RELIANCE'' good_event))
     = [good_tick] \<and>
   db (fst (handle_market_data env_store_down init_streamer ''NSE_RELIANCE'' good_event)) = empty_db"
proof -
  have a: "tasks (fst (handle_market_data env0 just_written ''NSE_RELIANCE'' good_event))
             = [good_tick]"
    using validated_tick_forwarded[of env0 just_written "''NSE_RELIANCE''" good_event good_tick]
    by (simp add: eval_handler good_event_def good_tick_def just_written_def
        init_streamer_def env0_def)
  have b: "db (fst (handle_market_data env0 just_written ''NSE_RELIANCE'' good_event)) = empty_db"
    by (simp add: eval_handler good_event_def just_written_def init_streamer_def env0_def)
  have c: "tasks (fst (handle_market_data env_store_down init_streamer ''NSE_RELIANCE'' good_event))
             = [good_tick]"
    using validated_tick_forwarded[of env_store_down init_streamer "''NSE_RELIANCE''" good_event
        good_tick]
    by (simp add: eval_handler eval_store good_event_def good_tick_def
        init_streamer_def env0_def env_store_down_def)
  have d: "db (fst (handle_market_data env_store_down init_streamer ''NSE_RELIANCE'' good_event))
             = empty_db"
    by (simp add: eval_handler eval_store good_event_def init_streamer_def env0_def
        env_store_down_def)
  show ?thesis using a b c d by simp
qed

text \<open>
  Claim C7 fails on the code. \<open>_handle_market_data\<close> is a callback of the feed
  client, and in a thread without a running event loop \<open>asyncio.create_task\<close> raises
  \<open>RuntimeError\<close>: the validated tick is written to the store, the handler logs the
  error and returns, and the tick is not forwarded. \<open>_broadcast_update\<close> guards its own
  scheduling against this very case; the handler does not.
\<close>

theorem validated_tick_not_forwarded:
  "validated_tick env_no_loop init_streamer ''NSE_RELIANCE'' good_event = Some good_tick \<and>
   tasks (fst (handle_market_data env_no_loop init_streamer ''NSE_RELIANCE'' good_event)) = [] \<and>
   prices (db (fst (handle_market_data env_no_loop init_streamer ''NSE_RELIANCE'' good_event)))
      (0, ''RELIANCE'', ''NSE'') \<noteq> None \<and>
   logged (fst (handle_market_data env_no_loop init_streamer ''NSE_RELIANCE'' good_event))
     = [(INFO, ''Real-time update''), (ERROR, ''Error handling market data'')]"
  by (simp add: eval_handler eval_store validated_tick_def good_event_def good_tick_def
      init_streamer_def env0_def env_no_loop_def empty_db_def)

lemma one_argument_call:
  "call2 get_br_symbol c [s] = Inl TypeError" "call2 get_brexchange c [s] = Inl TypeError"
  by (simp_all add: call2_def)

text \<open>
  Claim C5 fails on the code. The lookup is called with one argument and raises, the
  handler logs that at debug level and keeps the numeric token: with an exchange in the
  message the tick is stored and forwarded under the token.
\<close>

theorem numeric_token_accepted:
  "prices (db (fst (handle_market_data env0 init_streamer ''tick'' token_event)))
      (0, ''99999'', ''NSE'')
     = Some \<lparr>p_open = 0, p_high = 0, p_low = 0, p_close = 100, p_volume = 0, p_oi = 0,
             p_last_updated = 0\<rparr> \<and>
   map fst (tasks (fst (handle_market_data env0 init_streamer ''tick'' token_event)))
     = [''99999''] \<and>
   logged (fst (handle_market_data env0 init_streamer ''tick'' token_event))
     = [(DEBUG, ''Token mapping failed''), (INFO, ''Real-time update'')]"
  by (simp add: eval_handler eval_store token_event_def init_streamer_def env0_def
      empty_db_def isdigit_def map_token_def call2_def)

section \<open>Reconnection backoff\<close>

text \<open>
  While attempts remain, the delay slept is \<open>min(reconnect_delay * 2^(attempts + 1),
  max_reconnect_delay)\<close>, the counter having been incremented before the delay is
  computed; a successful attempt resets the counter to 0, a failed one leaves it
  incremented. With the budget used up the handler stops the streamer and does not sleep.
\<close>

lemma handle_reconnection_delay:
  assumes "reconnect_attempts st < max_reconnect_attempts st"
  shows "snd (handle_reconnection ok st)
           = Some (min (reconnect_delay st * 2 ^ (reconnect_attempts st + 1))
                       (max_reconnect_delay st))"
    and "reconnect_attempts (fst (handle_reconnection ok st))
           = (if ok then 0 else reconnect_attempts st + 1)"
  using assms by (simp_all add: handle_reconnection_def Let_def add_log_def)

lemma handle_reconnection_exhausted:
  assumes "reconnect_attempts st \<ge> max_reconnect_attempts st"
  shows "snd (handle_reconnection ok st) = None"
    and "\<not> running (fst (handle_reconnection ok st))"
  using assms by (simp_all add: handle_reconnection_def stop_streaming_def add_log_def)

text \<open>
  Claim C3 fails on the code. With the defaults (5 and 60 seconds) consecutive failures
  sleep 10, 20, 40, 60, 60, 60 seconds: the sequence starts at twice the base delay, 5
  seconds are never slept. The counter does return to 0 after a success.
\<close>

theorem reconnect_delays_start_at_ten:
  "snd (reconnect_run [False, False, False, False, False, False] init_streamer)
     = [Some 10, Some 20, Some 40, Some 60, Some 60, Some 60] \<and>
   snd (reconnect_run [False, False, True, False] init_streamer)
     = [Some 10, Some 20, Some 40, Some 10] \<and>
   reconnect_attempts (fst (reconnect_run [False, False, True] init_streamer)) = 0"
  by (simp add: handle_reconnection_def Let_def add_log_def init_streamer_def)

section \<open>Properties of the registry and the fanout\<close>

lemma subscribe_symbol_list:
  "subscribed_symbols (subscribe_symbol m w k) w
     = (if k \<in> set (subscribed_symbols m w) then subscribed_symbols m w
        else subscribed_symbols m w @ [k])"
  by (auto simp: subscribe_symbol_def subscribed_symbols_def Let_def split: option.splits)

lemma subscribe_symbol_twice:
  "subscribe_symbol (subscribe_symbol m w k) w k = subscribe_symbol m w k"
  by (auto simp: subscribe_symbol_def Let_def split: option.splits)

lemma unsubscribe_symbol_list:
  "subscribed_symbols (unsubscribe_symbol m w k) w = remove1 k (subscribed_symbols m w)"
  by (auto simp: unsubscribe_symbol_def subscribed_symbols_def remove1_idem split: option.splits)

lemma unsubscribe_not_held:
  "k \<notin> set (subscribed_symbols m w) \<Longrightarrow> unsubscribe_symbol m w k = m"
  by (auto simp: unsubscribe_symbol_def subscribed_symbols_def split: option.splits)

lemma registry_distinct_list:
  "registry_distinct m \<Longrightarrow> distinct (subscribed_symbols m w)"
  by (auto simp: registry_distinct_def subscribed_symbols_def split: option.splits)

lemma count_list_distinct: "distinct xs \<Longrightarrow> x \<in> set xs \<Longrightarrow> count_list xs x = 1"
  by (induction xs) auto

lemma count_list_notin: "x \<notin> set xs \<Longrightarrow> count_list xs x = 0"
  by (induction xs) auto

lemma registry_distinct_init: "registry_distinct init_manager"
  by (simp add: registry_distinct_def init_manager_def)

lemma registry_distinct_connect: "registry_distinct m \<Longrightarrow> registry_distinct (connect m w)"
  by (simp add: registry_distinct_def connect_def)

lemma registry_distinct_disconnect: "registry_distinct m \<Longrightarrow> registry_distinct (disconnect m w)"
  by (simp add: registry_distinct_def disconnect_def)

lemma registry_distinct_subscribe:
  "registry_distinct m \<Longrightarrow> registry_distinct (subscribe_symbol m w k)"
  by (auto simp: registry_distinct_def subscribe_symbol_def Let_def split: option.splits if_splits)

lemma registry_distinct_unsubscribe:
  "registry_distinct m \<Longrightarrow> registry_distinct (unsubscribe_symbol m w k)"
  by (auto simp: registry_distinct_def unsubscribe_symbol_def split: option.splits if_splits)

text \<open>
  Claim C9. In a registry where no consumer holds a key twice: subscribing twice to a key
  is the same as subscribing once and leaves exactly one entry of the key for the consumer;
  unsubscribing after subscribing leaves no entry of the key; unsubscribing a key that is
  not held changes nothing; and unsubscribing twice is the same as unsubscribing once.
\<close>

theorem subscription_idempotent:
  assumes "registry_distinct m"
  shows "subscribe_symbol (subscribe_symbol m w k) w k = subscribe_symbol m w k
       \<and> count_list (subscribed_symbols (subscribe_symbol (subscribe_symbol m w k) w k) w) k = 1
       \<and> k \<notin> set (subscribed_symbols (unsubscribe_symbol (subscribe_symbol m w k) w k) w)
       \<and> (k \<notin> set (subscribed_symbols m w) \<longrightarrow> unsubscribe_symbol m w k = m)
       \<and> unsubscribe_symbol (unsubscribe_symbol m w k) w k = unsubscribe_symbol m w k"
proof -
  have d: "distinct (subscribed_symbols m w)" by (rule registry_distinct_list[OF assms])
  have a: "subscribe_symbol (subscribe_symbol m w k) w k = subscribe_symbol m w k"
    by (rule subscribe_symbol_twice)
  have d': "distinct (subscribed_symbols (subscribe_symbol m w k) w)"
    using d by (simp add: subscribe_symbol_list)
  have i: "k \<in> set (subscribed_symbols (subscribe_symbol m w k) w)"
    by (simp add: subscribe_symbol_list)
  have b: "count_list (subscribed_symbols (subscribe_symbol (subscribe_symbol m w k) w k) w) k = 1"
    using d' i by (simp add: subscribe_symbol_twice count_list_distinct)
  have c: "k \<notin> set (subscribed_symbols (unsubscribe_symbol (subscribe_symbol m w k) w k) w)"
    using d' by (simp add: unsubscribe_symbol_list)
  have n: "k \<notin> set (subscribed_symbols m w) \<longrightarrow> unsubscribe_symbol m w k = m"
    by (simp add: unsubscribe_not_held)
  have "k \<notin> set (subscribed_symbols (unsubscribe_symbol m w k) w)"
    using d by (simp add: unsubscribe_symbol_list)
  then have u: "unsubscribe_symbol (unsubscribe_symbol m w k) w k = unsubscribe_symbol m w k"
    by (rule unsubscribe_not_held)
  show ?thesis using a b c n u by simp
qed

theorem subscription_idempotent_witness:
  "registry_distinct one_client
   \<and> subscribed_symbols (subscribe_symbol (subscribe_symbol one_client 1 ''NSE_INFY'') 1 ''NSE_INFY'') 1
       = [''NSE_TCS'', ''NSE_INFY'']
   \<and> count_list (subscribed_symbols
        (subscribe_symbol (subscribe_symbol one_client 1 ''NSE_INFY'') 1 ''NSE_INFY'') 1) ''NSE_INFY'' = 1
   \<and> subscribed_symbols (unsubscribe_symbol (subscribe_symbol one_client 1 ''NSE_INFY'') 1 ''NSE_INFY'') 1
       = [''NSE_TCS'']
   \<and> unsubscribe_symbol one_client 1 ''NSE_SBIN'' = one_client"
proof -
  have r: "registry_distinct one_client"
    unfolding one_client_def
    by (intro registry_distinct_subscribe registry_distinct_connect registry_distinct_init)
  have l: "subscribed_symbols one_client 1 = [''NSE_TCS'']"
    by (simp add: one_client_def subscribe_symbol_def subscribed_symbols_def connect_def
        init_manager_def Let_def)
  show ?thesis
    using r l subscription_idempotent[OF r, of 1 "''NSE_INFY''"]
      subscription_idempotent[OF r, of 1 "''NSE_SBIN''"]
    by (simp add: subscribe_symbol_list unsubscribe_symbol_list)
qed

lemma fold_remove1_filter:
  assumes "\<forall>y \<in> set ys. \<not> P y"
  shows "foldl (\<lambda>l w. remove1 w l) (ys @ xs) (filter P xs) = ys @ filter (\<lambda>x. \<not> P x) xs"
  using assms
proof (induction xs arbitrary: ys)
  case Nil
  then show ?case by simp
next
  case (Cons x xs)
  show ?case
  proof (cases "P x")
    case True
    have "x \<notin> set ys" using Cons.prems True by blast
    then have "remove1 x (ys @ x # xs) = ys @ xs" by (simp add: remove1_append)
    then show ?thesis using True Cons.IH[OF Cons.prems] by simp
  next
    case False
    have "\<forall>y \<in> set (ys @ [x]). \<not> P y" using Cons.prems False by simp
    from Cons.IH[OF this] show ?thesis using False by simp
  qed
qed

lemma foldl_disconnect:
  "foldl disconnect m ws
     = m\<lparr>active_connections := foldl (\<lambda>l w. remove1 w l) (active_connections m) ws,
         subscriptions := (\<lambda>w. if w \<in> set ws then None else subscriptions m w)\<rparr>"
proof (induction ws arbitrary: m)
  case Nil
  then show ?case by simp
next
  case (Cons w ws)
  have "foldl disconnect m (w # ws) = foldl disconnect (disconnect m w) ws" by simp
  also have "\<dots> = (disconnect m w)
      \<lparr>active_connections := foldl (\<lambda>l w. remove1 w l) (active_connections (disconnect m w)) ws,
       subscriptions := (\<lambda>v. if v \<in> set ws then None else subscriptions (disconnect m w) v)\<rparr>"
    by (rule Cons.IH)
  also have "\<dots> = m
      \<lparr>active_connections := foldl (\<lambda>l w. remove1 w l) (active_connections m) (w # ws),
       subscriptions := (\<lambda>v. if v \<in> set (w # ws) then None else subscriptions m v)\<rparr>"
    by (auto simp: disconnect_def fun_eq_iff)
  finally show ?case .
qed

lemma broadcast_loop_eq:
  "broadcast_loop e m msg symbol_filter ws
     = (map (\<lambda>w. (w, msg)) (filter (\<lambda>w. admitted m symbol_filter w \<and> send_ok e w) ws),
        filter (send_fails e m symbol_filter) ws)"
  by (induction ws) (auto simp: admitted_def send_fails_def split: option.splits)

lemma broadcast_eq:
  "broadcast e m msg symbol_filter
     = (m\<lparr>active_connections :=
             filter (\<lambda>w. \<not> send_fails e m symbol_filter w) (active_connections m),
           subscriptions := (\<lambda>w. if w \<in> set (active_connections m) \<and> send_fails e m symbol_filter w
                                 then None else subscriptions m w)\<rparr>,
        map (\<lambda>w. (w, msg))
          (filter (\<lambda>w. admitted m symbol_filter w \<and> send_ok e w) (active_connections m)))"
  using fold_remove1_filter[of "[]" "send_fails e m symbol_filter" "active_connections m"]
  by (simp add: broadcast_def broadcast_loop_eq foldl_disconnect)

lemma push_key_eq:
  "push_key e (k, msg) (m, sent)
     = ((if due e m k \<and> push_recipients e m k \<noteq> []
         then m\<lparr>last_sent := (last_sent m)(k \<mapsto> now e)\<rparr> else m),
        sent @ push_sends e m (k, msg))"
  by (simp add: push_key_def push_sends_def due_def Let_def)

lemma push_recipients_last_sent [simp]:
  "push_recipients e (m\<lparr>last_sent := ls\<rparr>) k = push_recipients e m k"
  by (simp add: push_recipients_def subscribed_symbols_def)

lemma due_other_key:
  "k' \<noteq> k \<Longrightarrow> due e (m\<lparr>last_sent := (last_sent m)(k \<mapsto> t)\<rparr>) k' = due e m k'"
  by (simp add: due_def)

lemma push_fold:
  assumes "distinct (map fst kvs)"
  shows "foldl (\<lambda>acc kv. push_key e kv acc) (m, sent) kvs
     = (m\<lparr>last_sent := (\<lambda>k. if k \<in> pushed_keys e m kvs then Some (now e) else last_sent m k)\<rparr>,
        sent @ concat (map (push_sends e m) kvs))"
  using assms
proof (induction kvs arbitrary: m sent)
  case Nil
  then show ?case by (simp add: pushed_keys_def)
next
  case (Cons kv kvs)
  obtain k msg where kv: "kv = (k, msg)" by (cases kv) auto
  have dk: "k \<notin> fst ` set kvs" and d: "distinct (map fst kvs)"
    using Cons.prems kv by auto
  define m1 where "m1 = (if due e m k \<and> push_recipients e m k \<noteq> []
             then m\<lparr>last_sent := (last_sent m)(k \<mapsto> now e)\<rparr> else m)"
  have same_due: "due e m1 k' = due e m k'" if "k' \<in> fst ` set kvs" for k'
  proof -
    have "k' \<noteq> k" using that dk by blast
    then show ?thesis by (simp add: m1_def due_other_key)
  qed
  have same_rec: "push_recipients e m1 k' = push_recipients e m k'" for k'
    by (simp add: m1_def)
  have sends: "map (push_sends e m1) kvs = map (push_sends e m) kvs"
  proof (rule map_cong[OF refl])
    fix kv' assume "kv' \<in> set kvs"
    then have "fst kv' \<in> fst ` set kvs" by simp
    then show "push_sends e m1 kv' = push_sends e m kv'"
      using same_due[of "fst kv'"] same_rec[of "fst kv'"] by (simp add: push_sends_def)
  qed
  have keys: "pushed_keys e m1 kvs = pushed_keys e m kvs"
    unfolding pushed_keys_def
  proof (rule Collect_cong)
    fix k'
    show "(k' \<in> fst ` set kvs \<and> due e m1 k' \<and> push_recipients e m1 k' \<noteq> [])
        = (k' \<in> fst ` set kvs \<and> due e m k' \<and> push_recipients e m k' \<noteq> [])"
      using same_due[of k'] same_rec[of k'] by (cases "k' \<in> fst ` set kvs") simp_all
  qed
  have keys': "pushed_keys e m (kv # kvs)
      = (if due e m k \<and> push_recipients e m k \<noteq> [] then {k} else {}) \<union> pushed_keys e m kvs"
    unfolding pushed_keys_def kv by auto
  have "foldl (\<lambda>acc kv. push_key e kv acc) (m, sent) (kv # kvs)
          = foldl (\<lambda>acc kv. push_key e kv acc) (m1, sent @ push_sends e m (k, msg)) kvs"
    by (simp add: kv push_key_eq m1_def)
  also have "\<dots> = (m1\<lparr>last_sent := (\<lambda>k. if k \<in> pushed_keys e m1 kvs then Some (now e)
                                            else last_sent m1 k)\<rparr>,
                      (sent @ push_sends e m (k, msg)) @ concat (map (push_sends e m1) kvs))"
    by (rule Cons.IH[OF d])
  also have "\<dots> = (m\<lparr>last_sent := (\<lambda>k. if k \<in> pushed_keys e m (kv # kvs) then Some (now e)
                                          else last_sent m k)\<rparr>,
                      sent @ concat (map (push_sends e m) (kv # kvs)))"
  proof -
    have ls: "(\<lambda>k'. if k' \<in> pushed_keys e m kvs then Some (now e) else last_sent m1 k')
            = (\<lambda>k'. if k' \<in> pushed_keys e m (kv # kvs) then Some (now e) else last_sent m k')"
      unfolding keys' by (rule ext) (simp add: m1_def)
    have rec: "m1\<lparr>last_sent := f\<rparr> = m\<lparr>last_sent := f\<rparr>" for f
      by (simp add: m1_def)
    show ?thesis
      unfolding keys sends ls rec by (simp add: kv)
  qed
  finally show ?case .
qed

lemma push_fold_frame:
  "active_connections (fst (foldl (\<lambda>acc kv. push_key e kv acc) (m, sent) kvs)) = active_connections m
   \<and> subscriptions (fst (foldl (\<lambda>acc kv. push_key e kv acc) (m, sent) kvs)) = subscriptions m
   \<and> latest_prices (fst (foldl (\<lambda>acc kv. push_key e kv acc) (m, sent) kvs)) = latest_prices m"
proof (induction kvs arbitrary: m sent)
  case Nil
  then show ?case by simp
next
  case (Cons kv kvs)
  obtain k msg where kv: "kv = (k, msg)" by (cases kv) auto
  show ?case by (simp add: kv push_key_eq Cons.IH)
qed

lemma push_latest_prices_frame:
  "active_connections (fst (push_latest_prices e m)) = active_connections m
   \<and> subscriptions (fst (push_latest_prices e m)) = subscriptions m
   \<and> latest_prices (fst (push_latest_prices e m)) = latest_prices m"
  unfolding push_latest_prices_def by (rule push_fold_frame)

lemma push_latest_prices_eq:
  assumes "distinct (map fst (latest_prices m))"
  shows "push_latest_prices e m
     = (m\<lparr>last_sent := (\<lambda>k. if k \<in> pushed_keys e m (latest_prices m) then Some (now e)
                              else last_sent m k)\<rparr>,
        concat (map (push_sends e m) (latest_prices m)))"
  unfolding push_latest_prices_def using push_fold[OF assms, of e m "[]"] by simp

text \<open>
  Claim C6 (as amended). In \<open>broadcast\<close>, every admitted connection whose send succeeds
  receives the message and stays, every admitted connection whose send fails is removed
  from the connections and the subscriptions, and the resulting manager is the one that
  \<open>disconnect\<close> of the failed connections gives. In \<open>push_latest_prices\<close> the
  connections and subscriptions are left as they were, and for every cached key that is
  due every subscribed connection whose send succeeds receives the cached message.
\<close>

theorem delivery_failure_isolated:
  "(\<forall>w \<in> set (active_connections m). admitted m symbol_filter w \<longrightarrow>
       (if send_ok e w
        then (w, msg) \<in> set (snd (broadcast e m msg symbol_filter)) \<and>
             w \<in> set (active_connections (fst (broadcast e m msg symbol_filter)))
        else w \<notin> set (active_connections (fst (broadcast e m msg symbol_filter))) \<and>
             subscriptions (fst (broadcast e m msg symbol_filter)) w = None))
   \<and> fst (broadcast e m msg symbol_filter)
       = foldl disconnect m (filter (send_fails e m symbol_filter) (active_connections m))
   \<and> active_connections (fst (push_latest_prices e m)) = active_connections m
   \<and> subscriptions (fst (push_latest_prices e m)) = subscriptions m
   \<and> (distinct (map fst (latest_prices m)) \<longrightarrow>
        (\<forall>kv \<in> set (latest_prices m). due e m (fst kv) \<longrightarrow>
           (\<forall>w \<in> set (active_connections m).
               fst kv \<in> set (subscribed_symbols m w) \<and> send_ok e w \<longrightarrow>
               (w, snd kv) \<in> set (snd (push_latest_prices e m)))))"
proof -
  have a: "\<forall>w \<in> set (active_connections m). admitted m symbol_filter w \<longrightarrow>
       (if send_ok e w
        then (w, msg) \<in> set (snd (broadcast e m msg symbol_filter)) \<and>
             w \<in> set (active_connections (fst (broadcast e m msg symbol_filter)))
        else w \<notin> set (active_connections (fst (broadcast e m msg symbol_filter))) \<and>
             subscriptions (fst (broadcast e m msg symbol_filter)) w = None)"
    by (auto simp: broadcast_eq send_fails_def)
  have b: "fst (broadcast e m msg symbol_filter)
       = foldl disconnect m (filter (send_fails e m symbol_filter) (active_connections m))"
    by (simp add: broadcast_def broadcast_loop_eq)
  have c: "distinct (map fst (latest_prices m)) \<longrightarrow>
        (\<forall>kv \<in> set (latest_prices m). due e m (fst kv) \<longrightarrow>
           (\<forall>w \<in> set (active_connections m).
               fst kv \<in> set (subscribed_symbols m w) \<and> send_ok e w \<longrightarrow>
               (w, snd kv) \<in> set (snd (push_latest_prices e m))))"
  proof (intro impI ballI)
    fix kv w
    assume d: "distinct (map fst (latest_prices m))" and kv: "kv \<in> set (latest_prices m)"
      and due: "due e m (fst kv)" and w: "w \<in> set (active_connections m)"
      and ok: "fst kv \<in> set (subscribed_symbols m w) \<and> send_ok e w"
    have "w \<in> set (push_recipients e m (fst kv))"
      using w ok by (simp add: push_recipients_def)
    then have "(w, snd kv) \<in> set (push_sends e m kv)"
      using due by (auto simp: push_sends_def)
    then show "(w, snd kv) \<in> set (snd (push_latest_prices e m))"
      using kv by (auto simp: push_latest_prices_eq[OF d])
  qed
  show ?thesis using a b c push_latest_prices_frame[of e m] by simp
qed

theorem delivery_failure_isolated_witness:
  "snd (broadcast env_client1_down two_clients reliance_msg (Some ''NSE_RELIANCE''))
     = [(2, reliance_msg)]
   \<and> active_connections
        (fst (broadcast env_client1_down two_clients reliance_msg (Some ''NSE_RELIANCE''))) = [2]
   \<and> subscriptions
        (fst (broadcast env_client1_down two_clients reliance_msg (Some ''NSE_RELIANCE''))) 1 = None
   \<and> fst (broadcast env_client1_down two_clients reliance_msg (Some ''NSE_RELIANCE''))
        = disconnect two_clients 1"
  using delivery_failure_isolated[of two_clients "Some ''NSE_RELIANCE''" env_client1_down
      reliance_msg]
  by (simp add: two_clients_def env_client1_down_def env0_def broadcast_eq send_fails_def
      admitted_def subscribed_symbols_def disconnect_def)

text \<open>
  The periodic push does not remove a client whose send fails: client 1 cannot be reached,
  client 2 gets the update, and client 1 is still connected and subscribed afterwards.
\<close>

theorem pusher_keeps_failed_client_counterexample:
  "snd (push_latest_prices env_client1_down two_clients) = [(2, reliance_msg)]
   \<and> active_connections (fst (push_latest_prices env_client1_down two_clients)) = [1, 2]
   \<and> subscriptions (fst (push_latest_prices env_client1_down two_clients)) 1
        = Some [''NSE_RELIANCE'']"
  by (simp add: push_latest_prices_def push_key_def push_recipients_def two_clients_def
      env_client1_down_def env0_def subscribed_symbols_def Let_def)

section \<open>The rate cap of the periodic push\<close>

lemma dict_set_keys:
  "map fst (dict_set k v kvs) = (if k \<in> fst ` set kvs then map fst kvs else map fst kvs @ [k])"
proof (induction kvs)
  case Nil
  then show ?case by simp
next
  case (Cons x kvs)
  obtain a b where x: "x = (a, b)" by (cases x) auto
  show ?case
  proof (cases "a = k")
    case True
    then show ?thesis by (simp add: x)
  next
    case False
    then show ?thesis using Cons.IH by (simp add: x)
  qed
qed

lemma dict_set_set: "set (dict_set k v kvs) \<subseteq> insert (k, v) (set kvs)"
  by (induction kvs) (auto split: if_splits)

lemma map_of_dict_set: "map_of (dict_set k v kvs) = (map_of kvs)(k \<mapsto> v)"
  by (induction kvs) (auto simp: fun_eq_iff)

lemma distinct_dict_set: "distinct (map fst kvs) \<Longrightarrow> distinct (map fst (dict_set k v kvs))"
  by (simp add: dict_set_keys)

lemma sorted_wrt_distinct_map:
  assumes "distinct (map f xs)" and "\<And>x y. f x \<noteq> f y \<Longrightarrow> R x y"
  shows "sorted_wrt R xs"
  using assms(1)
proof (induction xs)
  case Nil
  then show ?case by simp
next
  case (Cons x xs)
  have "\<forall>y \<in> set xs. f x \<noteq> f y" using Cons.prems by auto
  then show ?case using Cons assms(2) by auto
qed

lemma push_sends_members:
  "d \<in> set (push_sends e m kv)
     \<longleftrightarrow> (due e m (fst kv) \<and> fst d \<in> set (push_recipients e m (fst kv)) \<and> snd d = snd kv)"
  by (cases d) (auto simp: push_sends_def)

lemma push_recipients_distinct:
  "distinct (active_connections m) \<Longrightarrow> distinct (push_recipients e m k)"
  by (simp add: push_recipients_def)

lemma push_all_distinct:
  assumes "distinct (active_connections m)"
    and "distinct (map fst kvs)"
    and "\<forall>kv \<in> set kvs. symbol_key_of (snd kv) = fst kv"
  shows "distinct (map tag (concat (map (push_sends e m) kvs)))
       \<and> snd ` tag ` set (concat (map (push_sends e m) kvs)) \<subseteq> fst ` set kvs"
  using assms(2,3)
proof (induction kvs)
  case Nil
  then show ?case by simp
next
  case (Cons kv kvs)
  have k: "symbol_key_of (snd kv) = fst kv" using Cons.prems by simp
  have ih: "distinct (map tag (concat (map (push_sends e m) kvs)))"
    "snd ` tag ` set (concat (map (push_sends e m) kvs)) \<subseteq> fst ` set kvs"
    using Cons by auto
  have here: "map tag (push_sends e m kv)
      = (if due e m (fst kv) then map (\<lambda>w. (w, fst kv)) (push_recipients e m (fst kv)) else [])"
    by (simp add: push_sends_def tag_def k)
  have d1: "distinct (map tag (push_sends e m kv))"
    using push_recipients_distinct[OF assms(1), of e "fst kv"]
    by (simp add: here distinct_map inj_on_def)
  have s1: "snd ` tag ` set (push_sends e m kv) \<subseteq> {fst kv}"
    by (auto simp: push_sends_def tag_def k)
  have nk: "fst kv \<notin> fst ` set kvs" using Cons.prems by auto
  have disj: "tag ` set (push_sends e m kv) \<inter> tag ` set (concat (map (push_sends e m) kvs)) = {}"
  proof (rule ccontr)
    assume "\<not> ?thesis"
    then obtain t where t: "t \<in> tag ` set (push_sends e m kv)"
      "t \<in> tag ` set (concat (map (push_sends e m) kvs))" by blast
    have "snd t = fst kv" using t(1) s1 by auto
    moreover have "snd t \<in> fst ` set kvs" using t(2) ih(2) by (metis image_eqI subsetD)
    ultimately show False using nk by simp
  qed
  have "distinct (map tag (concat (map (push_sends e m) (kv # kvs))))"
    using d1 ih(1) disj by simp
  moreover have "snd ` tag ` set (concat (map (push_sends e m) (kv # kvs))) \<subseteq> fst ` set (kv # kvs)"
  proof -
    have "snd ` tag ` set (concat (map (push_sends e m) (kv # kvs)))
        = snd ` tag ` set (push_sends e m kv) \<union> snd ` tag ` set (concat (map (push_sends e m) kvs))"
      by (simp add: image_Un)
    also have "\<dots> \<subseteq> {fst kv} \<union> fst ` set kvs"
      using s1 ih(2) by (rule Un_mono)
    finally show ?thesis by simp
  qed
  ultimately show ?case by simp
qed

lemma concat_push_member:
  assumes "d \<in> set (concat (map (push_sends e m) kvs))"
  shows "\<exists>kv \<in> set kvs. due e m (fst kv) \<and> fst d \<in> set (push_recipients e m (fst kv))
            \<and> snd d = snd kv"
  using assms by (auto simp: push_sends_members)

lemma sorted_wrt_all:
  "(\<And>x y. x \<in> set xs \<Longrightarrow> y \<in> set xs \<Longrightarrow> R x y) \<Longrightarrow> sorted_wrt R xs"
  by (induction xs) auto

lemma spaced_immediate [simp]: "spaced x (stamp e Immediate d)" "spaced (stamp e Immediate d) y"
  by (simp_all add: spaced_def stamp_def)

lemma rate_inv_connect:
  "rate_inv (m, out) \<Longrightarrow> w \<notin> set (active_connections m) \<Longrightarrow> rate_inv (connect m w, out)"
  by (simp add: rate_inv_def connect_def)

lemma rate_inv_disconnect: "rate_inv (m, out) \<Longrightarrow> rate_inv (disconnect m w, out)"
  by (simp add: rate_inv_def disconnect_def)

lemma rate_inv_subscribe: "rate_inv (m, out) \<Longrightarrow> rate_inv (subscribe_symbol m w k, out)"
  by (auto simp: rate_inv_def subscribe_symbol_def Let_def split: option.splits)

lemma rate_inv_unsubscribe: "rate_inv (m, out) \<Longrightarrow> rate_inv (unsubscribe_symbol m w k, out)"
  by (auto simp: rate_inv_def unsubscribe_symbol_def split: option.splits)

lemma rate_inv_update:
  assumes "rate_inv (m, out)"
  shows "rate_inv (manager_step (Update e msg) (m, out))"
proof -
  let ?k = "symbol_key_of msg"
  let ?c = "cache_latest msg m"
  obtain m' ds where b: "broadcast e ?c msg (Some ?k) = (m', ds)"
    by (cases "broadcast e ?c msg (Some ?k)") auto
  have m': "latest_prices m' = dict_set ?k msg (latest_prices m)"
    "last_sent m' = last_sent m"
    "active_connections m'
       = filter (\<lambda>w. \<not> send_fails e ?c (Some ?k) w) (active_connections m)"
    using b by (auto simp: broadcast_eq cache_latest_def)
  have step: "manager_step (Update e msg) (m, out) = (m', out @ map (stamp e Immediate) ds)"
    using b by simp
  have i1: "distinct (active_connections m')"
    using assms by (simp add: m' rate_inv_def)
  have i2: "distinct (map fst (latest_prices m'))"
    using assms by (simp add: m' rate_inv_def distinct_dict_set)
  have i3: "\<forall>kv \<in> set (latest_prices m'). symbol_key_of (snd kv) = fst kv"
  proof
    fix kv assume "kv \<in> set (latest_prices m')"
    then have "kv = (?k, msg) \<or> kv \<in> set (latest_prices m)"
      using dict_set_set[of ?k msg "latest_prices m"] by (auto simp: m')
    then show "symbol_key_of (snd kv) = fst kv"
      using assms by (auto simp: rate_inv_def)
  qed
  have i4: "\<forall>x \<in> set (out @ map (stamp e Immediate) ds). s_origin x = Pusher \<longrightarrow>
          (\<exists>ts. last_sent m' (symbol_key_of (s_msg x)) = Some ts \<and> s_time x \<le> ts)"
    using assms by (auto simp: rate_inv_def m' stamp_def)
  have i5: "sorted_wrt spaced (out @ map (stamp e Immediate) ds)"
  proof -
    have "sorted_wrt spaced (map (stamp e Immediate) ds)"
      by (rule sorted_wrt_all) auto
    moreover have "sorted_wrt spaced out" using assms by (simp add: rate_inv_def)
    ultimately show ?thesis by (auto simp: sorted_wrt_append)
  qed
  show ?thesis
    unfolding step using i1 i2 i3 i4 i5 by (simp add: rate_inv_def)
qed

lemma rate_inv_push_latest:
  assumes "rate_inv (m, out)" and p: "push_latest_prices e m = (m', ds)"
  shows "rate_inv (m', out @ map (stamp e Pusher) ds)"
proof -
  have inv: "distinct (active_connections m)" "distinct (map fst (latest_prices m))"
    "\<forall>kv \<in> set (latest_prices m). symbol_key_of (snd kv) = fst kv"
    "\<forall>x \<in> set out. s_origin x = Pusher \<longrightarrow>
          (\<exists>ts. last_sent m (symbol_key_of (s_msg x)) = Some ts \<and> s_time x \<le> ts)"
    "sorted_wrt spaced out"
    using assms(1) by (simp_all add: rate_inv_def)
  let ?kvs = "latest_prices m"
  have m': "m' = m\<lparr>last_sent := (\<lambda>k. if k \<in> pushed_keys e m ?kvs then Some (now e)
                                       else last_sent m k)\<rparr>"
    and ds: "ds = concat (map (push_sends e m) ?kvs)"
    using p push_latest_prices_eq[OF inv(2), of e] by simp_all
  have new: "due e m (symbol_key_of (snd d)) \<and> symbol_key_of (snd d) \<in> pushed_keys e m ?kvs"
    if dm: "d \<in> set ds" for d
  proof -
    have "d \<in> set (concat (map (push_sends e m) ?kvs))" using dm ds by simp
    from concat_push_member[OF this]
    obtain kv where kv: "kv \<in> set ?kvs" "due e m (fst kv)"
      "fst d \<in> set (push_recipients e m (fst kv))" "snd d = snd kv"
      by blast
    have k: "symbol_key_of (snd d) = fst kv" using kv(1,4) inv(3) by simp
    have "push_recipients e m (fst kv) \<noteq> []" using kv(3) by auto
    then have "fst kv \<in> pushed_keys e m ?kvs"
      using kv(1,2) by (auto simp: pushed_keys_def)
    then show ?thesis using k kv(2) by simp
  qed
  have pushed_due: "due e m k" if "k \<in> pushed_keys e m ?kvs" for k
    using that by (simp add: pushed_keys_def)
  have i4_old: "\<exists>ts. last_sent m' (symbol_key_of (s_msg x)) = Some ts \<and> s_time x \<le> ts"
    if xo: "x \<in> set out" "s_origin x = Pusher" for x
  proof -
    obtain ts where ts: "last_sent m (symbol_key_of (s_msg x)) = Some ts" "s_time x \<le> ts"
      using inv(4) xo by blast
    show ?thesis
    proof (cases "symbol_key_of (s_msg x) \<in> pushed_keys e m ?kvs")
      case True
      then have "now e - ts \<ge> 1 / 2" using pushed_due[OF True] ts(1) by (simp add: due_def)
      then have "s_time x \<le> now e" using ts(2) by simp
      then show ?thesis using True by (simp add: m')
    next
      case False
      then show ?thesis using ts by (simp add: m')
    qed
  qed
  have i4_new: "\<exists>ts. last_sent m' (symbol_key_of (s_msg x)) = Some ts \<and> s_time x \<le> ts"
    if xn: "x \<in> set (map (stamp e Pusher) ds)" for x
  proof -
    obtain d where d: "d \<in> set ds" "x = stamp e Pusher d" using xn by auto
    show ?thesis using new[OF d(1)] by (simp add: d(2) stamp_def m')
  qed
  have cross: "spaced x y" if xy: "x \<in> set out" "y \<in> set (map (stamp e Pusher) ds)" for x y
  proof -
    obtain d where d: "d \<in> set ds" "y = stamp e Pusher d" using xy(2) by auto
    show ?thesis
      unfolding spaced_def
    proof (intro impI)
      assume a: "s_origin x = Pusher \<and> s_origin y = Pusher \<and> s_ws x = s_ws y \<and>
                 symbol_key_of (s_msg x) = symbol_key_of (s_msg y)"
      obtain ts where ts: "last_sent m (symbol_key_of (s_msg x)) = Some ts" "s_time x \<le> ts"
        using inv(4) xy(1) a by blast
      have "due e m (symbol_key_of (s_msg x))"
        using new[OF d(1)] a by (simp add: d(2) stamp_def)
      then have "now e - ts \<ge> 1 / 2" using ts(1) by (simp add: due_def)
      then show "s_time x + 1 / 2 \<le> s_time y" using ts(2) by (simp add: d(2) stamp_def)
    qed
  qed
  have fresh: "sorted_wrt spaced (map (stamp e Pusher) ds)"
  proof -
    have dt: "distinct (map tag ds)"
      using push_all_distinct[OF inv(1) inv(2) inv(3), of e] ds by simp
    have "sorted_wrt (\<lambda>a b. spaced (stamp e Pusher a) (stamp e Pusher b)) ds"
    proof (rule sorted_wrt_distinct_map[OF dt])
      fix a b :: delivery
      assume "tag a \<noteq> tag b"
      then show "spaced (stamp e Pusher a) (stamp e Pusher b)"
        by (auto simp: spaced_def stamp_def tag_def)
    qed
    then show ?thesis by (simp add: sorted_wrt_map)
  qed
  have i5: "sorted_wrt spaced (out @ map (stamp e Pusher) ds)"
    using inv(5) fresh cross by (simp add: sorted_wrt_append)
  have i4: "\<forall>x \<in> set (out @ map (stamp e Pusher) ds). s_origin x = Pusher \<longrightarrow>
          (\<exists>ts. last_sent m' (symbol_key_of (s_msg x)) = Some ts \<and> s_time x \<le> ts)"
    using i4_old i4_new by auto
  have frame: "active_connections m' = active_connections m" "latest_prices m' = latest_prices m"
    by (simp_all add: m')
  show ?thesis
    using inv(1,2,3) i4 i5 by (simp add: rate_inv_def frame)
qed

lemma rate_inv_push:
  assumes "rate_inv (m, out)"
  shows "rate_inv (manager_step (Push e) (m, out))"
proof (cases "active_connections m \<noteq> [] \<and> latest_prices m \<noteq> []")
  case True
  obtain m' ds where p: "push_latest_prices e m = (m', ds)"
    by (cases "push_latest_prices e m") auto
  have "manager_step (Push e) (m, out) = (m', out @ map (stamp e Pusher) ds)"
    using True p by (simp add: price_pusher_round_def)
  then show ?thesis using rate_inv_push_latest[OF assms p] by simp
next
  case False
  then have "manager_step (Push e) (m, out) = (m, out)"
    by (auto simp: price_pusher_round_def)
  then show ?thesis using assms by simp
qed

lemma fst_manager_step:
  "fst (manager_step ev (m, out)) = fst (manager_step ev (m, []))"
  by (cases ev) (auto split: prod.splits)

lemma rate_inv_run:
  assumes "rate_inv s" and "fresh_from (fst s) evs"
  shows "rate_inv (run_from s evs)"
  using assms
proof (induction evs arbitrary: s)
  case Nil
  then show ?case by simp
next
  case (Cons ev evs)
  obtain m out where s: "s = (m, out)" by (cases s) auto
  have inv: "rate_inv (m, out)" using Cons.prems(1) s by simp
  have step: "rate_inv (manager_step ev (m, out))"
  proof (cases ev)
    case (Connect w)
    then have "w \<notin> set (active_connections m)" using Cons.prems(2) s by simp
    then show ?thesis using inv Connect by (simp add: rate_inv_connect)
  next
    case (Disconnect w)
    then show ?thesis using inv by (simp add: rate_inv_disconnect)
  next
    case (Subscribe w k)
    then show ?thesis using inv by (simp add: rate_inv_subscribe)
  next
    case (Unsubscribe w k)
    then show ?thesis using inv by (simp add: rate_inv_unsubscribe)
  next
    case (Update e msg)
    then show ?thesis using rate_inv_update[OF inv] by simp
  next
    case (Push e)
    then show ?thesis using rate_inv_push[OF inv] by simp
  qed
  have "fresh_from (fst (manager_step ev (m, out))) evs"
    using Cons.prems(2) s fst_manager_step[of ev m out] by simp
  from Cons.IH[OF step this] show ?case by (simp add: s)
qed

lemma rate_inv_init: "rate_inv (init_manager, [])"
  by (simp add: rate_inv_def init_manager_def)

lemma latest_step:
  "latest_prices (fst (manager_step ev (m, out)))
     = (case ev of Update e msg \<Rightarrow> dict_set (symbol_key_of msg) msg (latest_prices m)
        | _ \<Rightarrow> latest_prices m)"
proof (cases ev)
  case (Update e msg)
  then show ?thesis by (simp add: broadcast_eq cache_latest_def split: prod.splits)
next
  case (Push e)
  then show ?thesis
    using push_latest_prices_frame[of e m]
    by (auto simp: price_pusher_round_def split: prod.splits)
qed (simp_all add: connect_def disconnect_def subscribe_symbol_def unsubscribe_symbol_def
      Let_def split: option.splits)

lemma latest_run:
  "map_of (latest_prices (fst (run_from (m, out) evs))) k
     = (case latest_of evs k of Some x \<Rightarrow> Some x | None \<Rightarrow> map_of (latest_prices m) k)"
proof (induction evs arbitrary: m out)
  case Nil
  then show ?case by simp
next
  case (Cons ev evs)
  obtain m1 out1 where st: "manager_step ev (m, out) = (m1, out1)"
    by (cases "manager_step ev (m, out)") auto
  have l1: "latest_prices m1
     = (case ev of Update e msg \<Rightarrow> dict_set (symbol_key_of msg) msg (latest_prices m)
        | _ \<Rightarrow> latest_prices m)"
    using latest_step[of ev m out] st by simp
  have "map_of (latest_prices (fst (run_from (m, out) (ev # evs)))) k
      = (case latest_of evs k of Some x \<Rightarrow> Some x | None \<Rightarrow> map_of (latest_prices m1) k)"
    using Cons.IH[of m1 out1] st by simp
  then show ?case
    by (cases ev) (auto simp: l1 map_of_dict_set split: option.splits)
qed

text \<open>
  The broadcast that the task of the streamer schedules reaches every connected consumer
  that is subscribed to the key of the update and whose send succeeds, whatever
  \<open>last_sent\<close> holds.
\<close>

lemma run_tasks_delivers:
  assumes "w \<in> set (active_connections m)"
    and "symbol_key_of (update_message e t) \<in> set (subscribed_symbols m w)"
    and "send_ok e w"
  shows "(w, update_message e t) \<in> set (snd (run_tasks e [t] ((st, m), [])))"
proof -
  obtain symbol exchange price_data where t: "t = (symbol, exchange, price_data)"
    by (cases t) auto
  define msg where "msg = update_message e t"
  define m1 where "m1 = cache_latest msg m"
  have k: "symbol_key_of msg = exchange @ ''_'' @ symbol"
    by (simp add: msg_def t update_message_def symbol_key_of_def)
  have sub: "subscribed_symbols m1 = subscribed_symbols m"
    by (simp add: m1_def cache_latest_def subscribed_symbols_def fun_eq_iff)
  have act: "active_connections m1 = active_connections m"
    by (simp add: m1_def cache_latest_def)
  have adm: "admitted m1 (Some (symbol_key_of msg)) w"
    using assms(2) by (simp add: admitted_def sub msg_def)
  have "(w, msg) \<in> set (snd (broadcast e m1 msg (Some (symbol_key_of msg))))"
    using assms(1,3) adm by (simp add: broadcast_eq act)
  moreover have "set (snd (broadcast e m1 msg (Some (symbol_key_of msg))))
      \<subseteq> set (snd (run_tasks e [t] ((st, m), [])))"
    by (simp add: t broadcast_update_def Let_def m1_def msg_def cache_latest_def k[unfolded msg_def t]
        update_message_def symbol_key_of_def split: prod.splits)
  ultimately show ?thesis by (auto simp: msg_def)
qed

text \<open>
  Claim C4 (as amended). In every run of the manager whose connections are new ones, two
  deliveries of the periodic push to the same consumer for the same key are at least half
  a second apart, whatever the rate of the updates; every message a round of the periodic
  push delivers is the latest update of its key; and the task of the streamer for a
  forwarded tick, with the broadcast it schedules, delivers the update at once to every
  connected consumer that is subscribed to its key and can be reached, without regard to
  the time of the last send.
\<close>

theorem pusher_rate_cap:
  assumes "fresh_from init_manager evs"
  shows "(\<forall>i j. i < j \<and> j < length (snd (manager_run evs)) \<longrightarrow>
            spaced (snd (manager_run evs) ! i) (snd (manager_run evs) ! j))
       \<and> (\<forall>e. \<forall>d \<in> set (snd (price_pusher_round e (fst (manager_run evs)))).
            latest_of evs (symbol_key_of (snd d)) = Some (snd d))
       \<and> (\<forall>e t st. \<forall>w \<in> set (active_connections (fst (manager_run evs))).
            symbol_key_of (update_message e t) \<in> set (subscribed_symbols (fst (manager_run evs)) w)
              \<and> send_ok e w \<longrightarrow>
            (w, update_message e t)
              \<in> set (snd (run_tasks e [t] ((st, fst (manager_run evs)), []))))"
proof -
  obtain m out where r: "manager_run evs = (m, out)" by (cases "manager_run evs") auto
  have inv: "rate_inv (m, out)"
    using rate_inv_run[OF rate_inv_init, of evs] assms r by (simp add: manager_run_def)
  have a: "\<forall>i j. i < j \<and> j < length out \<longrightarrow> spaced (out ! i) (out ! j)"
    using inv by (simp add: rate_inv_def sorted_wrt_iff_nth_less)
  have lat: "map_of (latest_prices m) k = latest_of evs k" for k
    using latest_run[of init_manager "[]" evs k] r
    by (simp add: manager_run_def init_manager_def split: option.splits)
  have b: "latest_of evs (symbol_key_of (snd d)) = Some (snd d)"
    if dm: "d \<in> set (snd (price_pusher_round e m))" for e d
  proof -
    have dk: "distinct (map fst (latest_prices m))"
      and keyed: "\<forall>kv \<in> set (latest_prices m). symbol_key_of (snd kv) = fst kv"
      using inv by (simp_all add: rate_inv_def)
    have "d \<in> set (concat (map (push_sends e m) (latest_prices m)))"
      using dm push_latest_prices_eq[OF dk, of e]
      by (auto simp: price_pusher_round_def split: if_splits)
    from concat_push_member[OF this]
    obtain kv where kv: "kv \<in> set (latest_prices m)" "snd d = snd kv" by blast
    have "map_of (latest_prices m) (fst kv) = Some (snd kv)"
      using dk kv(1) by (cases kv) simp
    then show ?thesis using kv keyed lat by simp
  qed
  have c: "(w, update_message e t) \<in> set (snd (run_tasks e [t] ((st, m), [])))"
    if "w \<in> set (active_connections m)"
      and "symbol_key_of (update_message e t) \<in> set (subscribed_symbols m w)"
      and "send_ok e w" for e t st w
    using that by (rule run_tasks_delivers)
  show ?thesis using a b c by (simp add: r)
qed

lemmas eval_manager = manager_run_def price_pusher_round_def push_latest_prices_def push_key_def
  push_recipients_def subscribed_symbols_def broadcast_def connect_def disconnect_def
  subscribe_symbol_def unsubscribe_symbol_def cache_latest_def symbol_key_of_def
  update_message_def init_manager_def stamp_def Let_def

lemma burst_fresh: "fresh_from init_manager burst"
  by (simp add: burst_def eval_manager)

lemma burst_out:
  "map (\<lambda>x. (s_origin x, s_time x, s_ws x)) (snd (manager_run burst))
     = [(Immediate, 1, 1), (Pusher, 1, 1), (Immediate, 11 / 10, 1), (Immediate, 13 / 10, 1),
        (Pusher, 3 / 2, 1)]"
  by (simp add: burst_def eval_manager update_for_def env_at_def env0_def)

lemma burst_last: "s_msg (snd (manager_run burst) ! 4) = update_for 102"
  by (simp add: burst_def eval_manager update_for_def env_at_def env0_def)

lemma burst_manager:
  "active_connections (fst (manager_run burst)) = [1] \<and>
   subscribed_symbols (fst (manager_run burst)) 1 = [''NSE_RELIANCE''] \<and>
   last_sent (fst (manager_run burst)) ''NSE_RELIANCE'' = Some (3 / 2)"
  by (simp add: burst_def eval_manager update_for_def env_at_def env0_def)

text \<open>
  In the burst the consumer receives an immediate broadcast for each of the three updates,
  and from the periodic push one message at 1 second and one at 1.5 seconds, the latter
  carrying the last update; the round at 1.25 seconds sends nothing. A tick forwarded at
  1.5 seconds, the instant of the last push, is delivered as well.
\<close>

theorem pusher_rate_cap_witness:
  "fresh_from init_manager burst
   \<and> map (\<lambda>x. (s_origin x, s_time x, s_ws x)) (snd (manager_run burst))
       = [(Immediate, 1, 1), (Pusher, 1, 1), (Immediate, 11 / 10, 1), (Immediate, 13 / 10, 1),
          (Pusher, 3 / 2, 1)]
   \<and> s_msg (snd (manager_run burst) ! 4) = update_for 102
   \<and> spaced (snd (manager_run burst) ! 1) (snd (manager_run burst) ! 4)
   \<and> last_sent (fst (manager_run burst)) ''NSE_RELIANCE'' = Some (3 / 2)
   \<and> (1, update_message (env_at (3 / 2)) good_tick)
        \<in> set (snd (run_tasks (env_at (3 / 2)) [good_tick]
                      ((init_streamer, fst (manager_run burst)), [])))"
proof -
  have len: "length (snd (manager_run burst)) = 5"
  proof -
    have "length (map (\<lambda>x. (s_origin x, s_time x, s_ws x)) (snd (manager_run burst))) = 5"
      unfolding burst_out by simp
    then show ?thesis by simp
  qed
  note cap = pusher_rate_cap[OF burst_fresh]
  have "spaced (snd (manager_run burst) ! 1) (snd (manager_run burst) ! 4)"
    using cap len by simp
  moreover have "(1, update_message (env_at (3 / 2)) good_tick)
        \<in> set (snd (run_tasks (env_at (3 / 2)) [good_tick]
                      ((init_streamer, fst (manager_run burst)), [])))"
  proof -
    have k: "symbol_key_of (update_message (env_at (3 / 2)) good_tick) = ''NSE_RELIANCE''"
      by (simp add: update_message_def symbol_key_of_def good_tick_def)
    have s: "send_ok (env_at (3 / 2)) 1" by (simp add: env_at_def env0_def)
    show ?thesis
      using cap[THEN conjunct2, THEN conjunct2, rule_format,
          of 1 "env_at (3 / 2)" good_tick init_streamer] burst_manager k s
      by simp
  qed
  ultimately show ?thesis using burst_fresh burst_out burst_last burst_manager by simp
qed

text \<open>
  The task of the streamer acts on the manager as the event \<open>Update\<close> does: it caches
  the message under its key, and the broadcast it scheduled delivers it.
\<close>

lemma broadcast_update_manager:
  "snd (fst (broadcast_update e t (st, m))) = cache_latest (update_message e t) m
   \<and> snd (snd (broadcast_update e t (st, m)))
       = (update_message e t, symbol_key_of (update_message e t))"
  by (cases t) (simp add: broadcast_update_def cache_latest_def symbol_key_of_def
      update_message_def Let_def)

lemma run_task_is_update:
  "snd (fst (run_tasks e [t] ((st, m), []))) = fst (manager_step (Update e (update_message e t)) (m, []))
   \<and> map (stamp e Immediate)
        (drop (length (filter (send_ok e) (subscribers st))) (snd (run_tasks e [t] ((st, m), []))))
       = snd (manager_step (Update e (update_message e t)) (m, []))"
  by (cases t) (simp add: broadcast_update_def cache_latest_def symbol_key_of_def
      update_message_def Let_def split: prod.splits)

text \<open>
  The claim as stated fails: two feed events for one key handled at the same instant are
  both delivered to the subscribed consumer, by the broadcast each task schedules.
\<close>

theorem burst_broadcast_counterexample:
  "snd (feed_event env0 ''NSE_RELIANCE'' (price_event 100) (init_streamer, one_subscriber))
     = [(1, update_for 100)]
   \<and> snd (feed_event env0 ''NSE_RELIANCE'' (price_event 101)
        (fst (feed_event env0 ''NSE_RELIANCE'' (price_event 100) (init_streamer, one_subscriber))))
     = [(1, update_for 101)]
   \<and> symbol_key_of (update_for 100) = symbol_key_of (update_for 101)
   \<and> update_for 100 \<noteq> update_for 101"
  by (simp add: feed_event_def eval_handler eval_store broadcast_update_def broadcast_def
      subscribed_symbols_def connect_def subscribe_symbol_def disconnect_def one_subscriber_def
      init_manager_def init_streamer_def empty_db_def env0_def price_event_def update_for_def
      update_message_def symbol_key_of_def)

section \<open>The registry in a run\<close>

text \<open>
  The passes of the fanout keep the registry free of duplicates as well, so every manager
  a run reaches has a registry without duplicates.
\<close>

lemma registry_distinct_broadcast:
  "registry_distinct m \<Longrightarrow> registry_distinct (fst (broadcast e m msg symbol_filter))"
  by (simp add: registry_distinct_def broadcast_eq)

lemma registry_distinct_push:
  "registry_distinct m \<Longrightarrow> registry_distinct (fst (price_pusher_round e m))"
  using push_latest_prices_frame[of e m]
  by (simp add: registry_distinct_def price_pusher_round_def)

lemma registry_distinct_cache:
  "registry_distinct m \<Longrightarrow> registry_distinct (cache_latest msg m)"
  by (simp add: registry_distinct_def cache_latest_def)

lemma registry_distinct_step:
  assumes "registry_distinct m"
  shows "registry_distinct (fst (manager_step ev (m, out)))"
proof (cases ev)
  case (Update e msg)
  then show ?thesis
    using registry_distinct_broadcast[OF registry_distinct_cache[OF assms], of e msg msg
        "Some (symbol_key_of msg)"]
    by (auto split: prod.splits)
next
  case (Push e)
  then show ?thesis using registry_distinct_push[OF assms, of e] by (auto split: prod.splits)
qed (simp_all add: assms registry_distinct_connect registry_distinct_disconnect
      registry_distinct_subscribe registry_distinct_unsubscribe)

lemma registry_distinct_run_from:
  "registry_distinct (fst s) \<Longrightarrow> registry_distinct (fst (run_from s evs))"
proof (induction evs arbitrary: s)
  case Nil
  then show ?case by simp
next
  case (Cons ev evs)
  obtain m out where s: "s = (m, out)" by (cases s) auto
  have "registry_distinct (fst (manager_step ev (m, out)))"
    using Cons.prems s by (simp add: registry_distinct_step)
  from Cons.IH[OF this] show ?case by (simp add: s)
qed

lemma registry_distinct_run: "registry_distinct (fst (manager_run evs))"
  unfolding manager_run_def
  by (rule registry_distinct_run_from) (simp add: registry_distinct_init)

end
